theory Spec2Isabelle
  imports Complex_Main
begin

section \<open>JavaScript numbers\<close>

text \<open>
  The calculation engine works on JavaScript numbers, the binary64 numbers of IEEE 754.
  A number is either a finite value, held as the rational it denotes, or one of the three
  non-finite values. Two arithmetics are defined on these values.

  The operations \<open>js_add\<close>, \<open>js_sub\<close>, \<open>js_mul\<close> and \<open>js_div\<close> of this
  section are exact on finite values: the result is the exact rational, without the
  rounding of binary64 and without overflow. They are used to state the algebraic laws
  of the formula graph (conservation of the split, additivity, monotonicity,
  independence of inputs), where the rounding error of each operation is left out.

  The operations \<open>add64\<close>, \<open>sub64\<close>, \<open>mul64\<close> and \<open>div64\<close> of the next section
  round every finite result to binary64, as the engine does; they give the numbers the
  engine returns, and are used wherever a statement is about those numbers or about
  their finiteness.

  Both arithmetics have the same non-finite cases: \<open>x / 0\<close> is \<open>NaN\<close> or an
  infinity, and a comparison with \<open>NaN\<close> is false. The sign of zero is not modelled.
\<close>

datatype jsnum = Fin rat | PInf | NInf | NaN

fun isFinite :: "jsnum \<Rightarrow> bool" where
  "isFinite (Fin _) = True"
| "isFinite _ = False"

fun js_neg :: "jsnum \<Rightarrow> jsnum" where
  "js_neg (Fin a) = Fin (- a)"
| "js_neg PInf = NInf"
| "js_neg NInf = PInf"
| "js_neg NaN = NaN"

fun js_add :: "jsnum \<Rightarrow> jsnum \<Rightarrow> jsnum" where
  "js_add NaN _ = NaN"
| "js_add _ NaN = NaN"
| "js_add (Fin a) (Fin b) = Fin (a + b)"
| "js_add PInf NInf = NaN"
| "js_add NInf PInf = NaN"
| "js_add PInf _ = PInf"
| "js_add _ PInf = PInf"
| "js_add NInf _ = NInf"
| "js_add _ NInf = NInf"

definition js_sub :: "jsnum \<Rightarrow> jsnum \<Rightarrow> jsnum" where
  "js_sub a b = js_add a (js_neg b)"

fun js_mul :: "jsnum \<Rightarrow> jsnum \<Rightarrow> jsnum" where
  "js_mul NaN _ = NaN"
| "js_mul _ NaN = NaN"
| "js_mul (Fin a) (Fin b) = Fin (a * b)"
| "js_mul (Fin a) PInf = (if a = 0 then NaN else if 0 < a then PInf else NInf)"
| "js_mul (Fin a) NInf = (if a = 0 then NaN else if 0 < a then NInf else PInf)"
| "js_mul PInf (Fin b) = (if b = 0 then NaN else if 0 < b then PInf else NInf)"
| "js_mul NInf (Fin b) = (if b = 0 then NaN else if 0 < b then NInf else PInf)"
| "js_mul PInf PInf = PInf"
| "js_mul PInf NInf = NInf"
| "js_mul NInf PInf = NInf"
| "js_mul NInf NInf = PInf"

fun js_div :: "jsnum \<Rightarrow> jsnum \<Rightarrow> jsnum" where
  "js_div NaN _ = NaN"
| "js_div _ NaN = NaN"
| "js_div (Fin a) (Fin b) =
     (if b = 0 then (if a = 0 then NaN else if 0 < a then PInf else NInf)
      else Fin (a / b))"
| "js_div (Fin a) PInf = Fin 0"
| "js_div (Fin a) NInf = Fin 0"
| "js_div PInf (Fin b) = (if 0 \<le> b then PInf else NInf)"
| "js_div NInf (Fin b) = (if 0 \<le> b then NInf else PInf)"
| "js_div PInf PInf = NaN"
| "js_div PInf NInf = NaN"
| "js_div NInf PInf = NaN"
| "js_div NInf NInf = NaN"

text \<open>
  The comparison \<open>a > b\<close>: false as soon as one side is \<open>NaN\<close>.
\<close>

fun js_gt :: "jsnum \<Rightarrow> jsnum \<Rightarrow> bool" where
  "js_gt NaN _ = False"
| "js_gt _ NaN = False"
| "js_gt (Fin a) (Fin b) = (b < a)"
| "js_gt PInf PInf = False"
| "js_gt PInf _ = True"
| "js_gt _ PInf = False"
| "js_gt NInf _ = False"
| "js_gt _ NInf = True"

text \<open>
  The comparison \<open>a <= b\<close>, used to state the orderings of results.
\<close>

fun js_le :: "jsnum \<Rightarrow> jsnum \<Rightarrow> bool" where
  "js_le NaN _ = False"
| "js_le _ NaN = False"
| "js_le (Fin a) (Fin b) = (a \<le> b)"
| "js_le NInf _ = True"
| "js_le _ PInf = True"
| "js_le PInf _ = False"
| "js_le _ NInf = False"

text \<open>
  \<open>Math.round\<close>: the nearest integer, a tie going up; non-finite values pass through.
  The result is exact in binary64 as well.
\<close>

fun Math_round :: "jsnum \<Rightarrow> jsnum" where
  "Math_round (Fin a) = Fin (of_int \<lfloor>a + 1 / 2\<rfloor>)"
| "Math_round x = x"

text \<open>
  \<open>Number.isInteger\<close>: the number is finite and has no fractional part.
\<close>

fun isInteger :: "jsnum \<Rightarrow> bool" where
  "isInteger (Fin a) = (a = of_int \<lfloor>a\<rfloor>)"
| "isInteger _ = False"

section \<open>Binary64 arithmetic\<close>

text \<open>
  A finite binary64 number is an integer multiple of a power of two: the multiple is
  below \<open>2^53\<close> in absolute value and the power is at least \<open>2^-1074\<close>. The binary
  exponent of a positive rational is found by halving.
\<close>

function floor_log2 :: "rat \<Rightarrow> int" where
  "floor_log2 x = (if 2 \<le> x then floor_log2 (x / 2) + 1 else 0)"
  by pat_completeness auto
termination
proof (relation "measure (\<lambda>x. nat \<lceil>x\<rceil>)")
  show "wf (measure (\<lambda>x::rat. nat \<lceil>x\<rceil>))"
    by simp
next
  fix x :: rat
  assume "2 \<le> x"
  then have c: "2 \<le> \<lceil>x\<rceil>"
    by linarith
  then have "(2::rat) \<le> of_int \<lceil>x\<rceil>"
    by linarith
  moreover have "x \<le> of_int \<lceil>x\<rceil>"
    by linarith
  ultimately have "x / 2 \<le> of_int \<lceil>x\<rceil> - 1"
    by linarith
  then have "x / 2 \<le> of_int (\<lceil>x\<rceil> - 1)"
    by simp
  then have "\<lceil>x / 2\<rceil> \<le> \<lceil>x\<rceil> - 1"
    by (rule ceiling_le)
  with c show "(x / 2, x) \<in> measure (\<lambda>x. nat \<lceil>x\<rceil>)"
    by simp
qed

function ceiling_log2 :: "rat \<Rightarrow> int" where
  "ceiling_log2 x = (if 1 < x then ceiling_log2 (x / 2) + 1 else 0)"
  by pat_completeness auto
termination
proof (relation "measure (\<lambda>x. nat \<lceil>x\<rceil>)")
  show "wf (measure (\<lambda>x::rat. nat \<lceil>x\<rceil>))"
    by simp
next
  fix x :: rat
  assume "1 < x"
  then have c: "2 \<le> \<lceil>x\<rceil>"
    by linarith
  then have "(2::rat) \<le> of_int \<lceil>x\<rceil>"
    by linarith
  moreover have "x \<le> of_int \<lceil>x\<rceil>"
    by linarith
  ultimately have "x / 2 \<le> of_int \<lceil>x\<rceil> - 1"
    by linarith
  then have "x / 2 \<le> of_int (\<lceil>x\<rceil> - 1)"
    by simp
  then have "\<lceil>x / 2\<rceil> \<le> \<lceil>x\<rceil> - 1"
    by (rule ceiling_le)
  with c show "(x / 2, x) \<in> measure (\<lambda>x. nat \<lceil>x\<rceil>)"
    by simp
qed

definition exponent :: "rat \<Rightarrow> int" where
  "exponent x = (if 1 \<le> x then floor_log2 x else - ceiling_log2 (1 / x))"

text \<open>
  Rounding to the nearest integer, a tie going to the even one.
\<close>

definition roundTiesToEven :: "rat \<Rightarrow> int" where
  "roundTiesToEven r =
     (let f = \<lfloor>r\<rfloor>; d = r - of_int f
      in if d < 1 / 2 then f else if 1 / 2 < d then f + 1 else if even f then f else f + 1)"

text \<open>
  The grid a number is rounded on has 53 significant bits, and never a spacing below
  \<open>2^-1074\<close> (gradual underflow). A result of magnitude \<open>2^1024\<close> or more is
  an infinity.
\<close>

definition grid_exponent :: "rat \<Rightarrow> int" where
  "grid_exponent x = max (exponent \<bar>x\<bar> - 52) (- 1074)"

definition nearest_on_grid :: "rat \<Rightarrow> rat" where
  "nearest_on_grid x =
     of_int (roundTiesToEven (x / 2 powi grid_exponent x)) * 2 powi grid_exponent x"

definition overflow_threshold :: rat where
  "overflow_threshold = 2 powi 1024"

definition round_to_binary64 :: "rat \<Rightarrow> jsnum" where
  "round_to_binary64 x =
     (if overflow_threshold \<le> \<bar>nearest_on_grid x\<bar>
      then (if 0 < x then PInf else NInf)
      else Fin (nearest_on_grid x))"

text \<open>
  The rounded operations: the exact operation, then the rounding of a finite result.
  A decimal literal \<open>d\<close> of the source is \<open>round_to_binary64 d\<close>.
\<close>

fun round64 :: "jsnum \<Rightarrow> jsnum" where
  "round64 (Fin a) = round_to_binary64 a"
| "round64 x = x"

definition add64 :: "jsnum \<Rightarrow> jsnum \<Rightarrow> jsnum" where
  "add64 a b = round64 (js_add a b)"

definition sub64 :: "jsnum \<Rightarrow> jsnum \<Rightarrow> jsnum" where
  "sub64 a b = round64 (js_add a (js_neg b))"

definition mul64 :: "jsnum \<Rightarrow> jsnum \<Rightarrow> jsnum" where
  "mul64 a b = round64 (js_mul a b)"

definition div64 :: "jsnum \<Rightarrow> jsnum \<Rightarrow> jsnum" where
  "div64 a b = round64 (js_div a b)"

section \<open>The constants table (utils/constants.js)\<close>

definition WEEKS_PER_YEAR :: jsnum where
  "WEEKS_PER_YEAR = Fin 52"

definition MONTHS_PER_YEAR :: jsnum where
  "MONTHS_PER_YEAR = Fin 12"

definition QUARTERS_PER_YEAR :: jsnum where
  "QUARTERS_PER_YEAR = Fin 4"

definition GOOGLE_FRANCHISE_RATIO :: jsnum where
  "GOOGLE_FRANCHISE_RATIO = Fin (7 / 10)"

definition META_FRANCHISE_RATIO :: jsnum where
  "META_FRANCHISE_RATIO = Fin (3 / 10)"

text \<open>
  The two ratios as the binary64 numbers that the literals 0.7 and 0.3 denote.
\<close>

definition GOOGLE_FRANCHISE_RATIO64 :: jsnum where
  "GOOGLE_FRANCHISE_RATIO64 = round_to_binary64 (7 / 10)"

definition META_FRANCHISE_RATIO64 :: jsnum where
  "META_FRANCHISE_RATIO64 = round_to_binary64 (3 / 10)"

section \<open>The calculation engine (hooks/useMarketingCalculations)\<close>

record Inputs =
  rmfRegionCount :: jsnum
  serviceLeadsPerWeekRMF :: jsnum
  aucklandServiceLeadsPerWeek :: jsnum
  franchiseLeadsPerMonth :: jsnum
  commercialLeadsPerQuarter :: jsnum
  googleServiceCPL :: jsnum
  metaServiceCPL :: jsnum
  googleFranchiseCPL :: jsnum
  metaFranchiseCPL :: jsnum
  linkedInCommercialCPL :: jsnum
  avgMonthlyServiceFee :: jsnum
  avgCustomerRetentionMonths :: jsnum
  serviceLeadConversionRate :: jsnum
  googleServiceSplit :: jsnum

record LeadMetrics =
  rmfServiceLeadsAnnual :: jsnum
  aucklandServiceLeadsAnnual :: jsnum
  totalServiceLeads :: jsnum
  totalFranchiseLeads :: jsnum
  totalCommercialLeads :: jsnum
  totalLeads :: jsnum

record ChannelLeads =
  googleServiceLeads :: jsnum
  metaServiceLeads :: jsnum

record BudgetAllocation =
  googleServiceBudget :: jsnum
  metaServiceBudget :: jsnum
  googleFranchiseBudget :: jsnum
  metaFranchiseBudget :: jsnum
  commercialBudget :: jsnum
  totalGoogleBudget :: jsnum
  totalMetaBudget :: jsnum
  totalPaidAds :: jsnum

record FinancialMetrics =
  customerLTV :: jsnum
  convertedCustomers :: jsnum
  totalRevenue :: jsnum
  roi :: jsnum
  costPerAcquisition :: jsnum
  ltvCacRatio :: jsnum
  averageCPL :: jsnum

record Results =
  leadMetrics :: LeadMetrics
  channelLeads :: ChannelLeads
  budgetAllocation :: BudgetAllocation
  financialMetrics :: FinancialMetrics

text \<open>
  The body of the hook is a chain of \<open>const\<close> bindings followed by the returned
  object. Each binding is a definition here, named after the binding with the suffix
  \<open>_of\<close> (the plain names are the fields of the returned records). The hook's
  \<open>useMemo\<close> only caches the result of this pure function. This first embedding
  uses the exact operations.
\<close>

subsection \<open>Lead volume calculations\<close>

definition rmfServiceLeadsAnnual_of :: "Inputs \<Rightarrow> jsnum" where
  "rmfServiceLeadsAnnual_of i =
     js_mul (js_mul (rmfRegionCount i) (serviceLeadsPerWeekRMF i)) WEEKS_PER_YEAR"

definition aucklandServiceLeadsAnnual_of :: "Inputs \<Rightarrow> jsnum" where
  "aucklandServiceLeadsAnnual_of i = js_mul (aucklandServiceLeadsPerWeek i) WEEKS_PER_YEAR"

definition totalServiceLeads_of :: "Inputs \<Rightarrow> jsnum" where
  "totalServiceLeads_of i =
     js_add (rmfServiceLeadsAnnual_of i) (aucklandServiceLeadsAnnual_of i)"

definition totalFranchiseLeads_of :: "Inputs \<Rightarrow> jsnum" where
  "totalFranchiseLeads_of i = js_mul (franchiseLeadsPerMonth i) MONTHS_PER_YEAR"

definition totalCommercialLeads_of :: "Inputs \<Rightarrow> jsnum" where
  "totalCommercialLeads_of i = js_mul (commercialLeadsPerQuarter i) QUARTERS_PER_YEAR"

subsection \<open>Channel distribution: service campaigns\<close>

definition googleServiceLeads_of :: "Inputs \<Rightarrow> jsnum" where
  "googleServiceLeads_of i = js_mul (totalServiceLeads_of i) (googleServiceSplit i)"

definition metaServiceLeads_of :: "Inputs \<Rightarrow> jsnum" where
  "metaServiceLeads_of i =
     js_mul (totalServiceLeads_of i) (js_sub (Fin 1) (googleServiceSplit i))"

definition googleServiceBudget_of :: "Inputs \<Rightarrow> jsnum" where
  "googleServiceBudget_of i = js_mul (googleServiceLeads_of i) (googleServiceCPL i)"

definition metaServiceBudget_of :: "Inputs \<Rightarrow> jsnum" where
  "metaServiceBudget_of i = js_mul (metaServiceLeads_of i) (metaServiceCPL i)"

subsection \<open>Channel distribution: franchise campaigns\<close>

definition googleFranchiseBudget_of :: "Inputs \<Rightarrow> jsnum" where
  "googleFranchiseBudget_of i =
     js_mul (js_mul (totalFranchiseLeads_of i) GOOGLE_FRANCHISE_RATIO) (googleFranchiseCPL i)"

definition metaFranchiseBudget_of :: "Inputs \<Rightarrow> jsnum" where
  "metaFranchiseBudget_of i =
     js_mul (js_mul (totalFranchiseLeads_of i) META_FRANCHISE_RATIO) (metaFranchiseCPL i)"

subsection \<open>Commercial campaign budget\<close>

definition commercialBudget_of :: "Inputs \<Rightarrow> jsnum" where
  "commercialBudget_of i = js_mul (totalCommercialLeads_of i) (linkedInCommercialCPL i)"

subsection \<open>Budget aggregation\<close>

definition totalGoogleBudget_of :: "Inputs \<Rightarrow> jsnum" where
  "totalGoogleBudget_of i = js_add (googleServiceBudget_of i) (googleFranchiseBudget_of i)"

definition totalMetaBudget_of :: "Inputs \<Rightarrow> jsnum" where
  "totalMetaBudget_of i = js_add (metaServiceBudget_of i) (metaFranchiseBudget_of i)"

definition totalPaidAds_of :: "Inputs \<Rightarrow> jsnum" where
  "totalPaidAds_of i =
     js_add (js_add (totalGoogleBudget_of i) (totalMetaBudget_of i)) (commercialBudget_of i)"

subsection \<open>Customer lifetime value and ROI projections\<close>

definition customerLTV_of :: "Inputs \<Rightarrow> jsnum" where
  "customerLTV_of i = js_mul (avgMonthlyServiceFee i) (avgCustomerRetentionMonths i)"

definition convertedCustomers_of :: "Inputs \<Rightarrow> jsnum" where
  "convertedCustomers_of i = js_mul (totalServiceLeads_of i) (serviceLeadConversionRate i)"

definition totalRevenue_of :: "Inputs \<Rightarrow> jsnum" where
  "totalRevenue_of i = js_mul (convertedCustomers_of i) (customerLTV_of i)"

definition roi_of :: "Inputs \<Rightarrow> jsnum" where
  "roi_of i =
     (if js_gt (totalPaidAds_of i) (Fin 0)
      then js_mul (js_div (js_sub (totalRevenue_of i) (totalPaidAds_of i)) (totalPaidAds_of i))
             (Fin 100)
      else Fin 0)"

definition costPerAcquisition_of :: "Inputs \<Rightarrow> jsnum" where
  "costPerAcquisition_of i =
     (if js_gt (convertedCustomers_of i) (Fin 0)
      then js_div (totalPaidAds_of i) (convertedCustomers_of i)
      else Fin 0)"

definition ltvCacRatio_of :: "Inputs \<Rightarrow> jsnum" where
  "ltvCacRatio_of i =
     (if js_gt (costPerAcquisition_of i) (Fin 0)
      then js_div (customerLTV_of i) (costPerAcquisition_of i)
      else Fin 0)"

subsection \<open>The returned metrics object\<close>

definition useMarketingCalculations :: "Inputs \<Rightarrow> Results" where
  "useMarketingCalculations i =
     \<lparr> leadMetrics =
         \<lparr> rmfServiceLeadsAnnual = Math_round (rmfServiceLeadsAnnual_of i),
           aucklandServiceLeadsAnnual = Math_round (aucklandServiceLeadsAnnual_of i),
           totalServiceLeads = Math_round (totalServiceLeads_of i),
           totalFranchiseLeads = Math_round (totalFranchiseLeads_of i),
           totalCommercialLeads = Math_round (totalCommercialLeads_of i),
           totalLeads =
             Math_round
               (js_add (js_add (totalServiceLeads_of i) (totalFranchiseLeads_of i))
                  (totalCommercialLeads_of i)) \<rparr>,
       channelLeads =
         \<lparr> googleServiceLeads = Math_round (googleServiceLeads_of i),
           metaServiceLeads = Math_round (metaServiceLeads_of i) \<rparr>,
       budgetAllocation =
         \<lparr> googleServiceBudget = googleServiceBudget_of i,
           metaServiceBudget = metaServiceBudget_of i,
           googleFranchiseBudget = googleFranchiseBudget_of i,
           metaFranchiseBudget = metaFranchiseBudget_of i,
           commercialBudget = commercialBudget_of i,
           totalGoogleBudget = totalGoogleBudget_of i,
           totalMetaBudget = totalMetaBudget_of i,
           totalPaidAds = totalPaidAds_of i \<rparr>,
       financialMetrics =
         \<lparr> customerLTV = customerLTV_of i,
           convertedCustomers = Math_round (convertedCustomers_of i),
           totalRevenue = totalRevenue_of i,
           roi = roi_of i,
           costPerAcquisition = costPerAcquisition_of i,
           ltvCacRatio = ltvCacRatio_of i,
           averageCPL =
             js_div (totalPaidAds_of i)
               (js_add (js_add (totalServiceLeads_of i) (totalFranchiseLeads_of i))
                  (totalCommercialLeads_of i)) \<rparr> \<rparr>"

text \<open>
  The four parts of the returned object, as functions of the input record.
\<close>

abbreviation leads :: "Inputs \<Rightarrow> LeadMetrics" where
  "leads i \<equiv> leadMetrics (useMarketingCalculations i)"


abbreviation budgets :: "Inputs \<Rightarrow> BudgetAllocation" where
  "budgets i \<equiv> budgetAllocation (useMarketingCalculations i)"

abbreviation financials :: "Inputs \<Rightarrow> FinancialMetrics" where
  "financials i \<equiv> financialMetrics (useMarketingCalculations i)"

section \<open>The calculation engine in binary64 arithmetic\<close>

text \<open>
  The same bindings and the same returned object, every operation rounded to binary64.
  The bindings carry the suffix \<open>64\<close>. This is what the engine computes bit for bit,
  up to the sign of zero.
\<close>

definition rmfServiceLeadsAnnual64 :: "Inputs \<Rightarrow> jsnum" where
  "rmfServiceLeadsAnnual64 i =
     mul64 (mul64 (rmfRegionCount i) (serviceLeadsPerWeekRMF i)) WEEKS_PER_YEAR"

definition aucklandServiceLeadsAnnual64 :: "Inputs \<Rightarrow> jsnum" where
  "aucklandServiceLeadsAnnual64 i = mul64 (aucklandServiceLeadsPerWeek i) WEEKS_PER_YEAR"

definition totalServiceLeads64 :: "Inputs \<Rightarrow> jsnum" where
  "totalServiceLeads64 i =
     add64 (rmfServiceLeadsAnnual64 i) (aucklandServiceLeadsAnnual64 i)"

definition totalFranchiseLeads64 :: "Inputs \<Rightarrow> jsnum" where
  "totalFranchiseLeads64 i = mul64 (franchiseLeadsPerMonth i) MONTHS_PER_YEAR"

definition totalCommercialLeads64 :: "Inputs \<Rightarrow> jsnum" where
  "totalCommercialLeads64 i = mul64 (commercialLeadsPerQuarter i) QUARTERS_PER_YEAR"

definition googleServiceLeads64 :: "Inputs \<Rightarrow> jsnum" where
  "googleServiceLeads64 i = mul64 (totalServiceLeads64 i) (googleServiceSplit i)"

definition metaServiceLeads64 :: "Inputs \<Rightarrow> jsnum" where
  "metaServiceLeads64 i =
     mul64 (totalServiceLeads64 i) (sub64 (Fin 1) (googleServiceSplit i))"

definition googleServiceBudget64 :: "Inputs \<Rightarrow> jsnum" where
  "googleServiceBudget64 i = mul64 (googleServiceLeads64 i) (googleServiceCPL i)"

definition metaServiceBudget64 :: "Inputs \<Rightarrow> jsnum" where
  "metaServiceBudget64 i = mul64 (metaServiceLeads64 i) (metaServiceCPL i)"

definition googleFranchiseBudget64 :: "Inputs \<Rightarrow> jsnum" where
  "googleFranchiseBudget64 i =
     mul64 (mul64 (totalFranchiseLeads64 i) GOOGLE_FRANCHISE_RATIO64) (googleFranchiseCPL i)"

definition metaFranchiseBudget64 :: "Inputs \<Rightarrow> jsnum" where
  "metaFranchiseBudget64 i =
     mul64 (mul64 (totalFranchiseLeads64 i) META_FRANCHISE_RATIO64) (metaFranchiseCPL i)"

definition commercialBudget64 :: "Inputs \<Rightarrow> jsnum" where
  "commercialBudget64 i = mul64 (totalCommercialLeads64 i) (linkedInCommercialCPL i)"

definition totalGoogleBudget64 :: "Inputs \<Rightarrow> jsnum" where
  "totalGoogleBudget64 i = add64 (googleServiceBudget64 i) (googleFranchiseBudget64 i)"

definition totalMetaBudget64 :: "Inputs \<Rightarrow> jsnum" where
  "totalMetaBudget64 i = add64 (metaServiceBudget64 i) (metaFranchiseBudget64 i)"

definition totalPaidAds64 :: "Inputs \<Rightarrow> jsnum" where
  "totalPaidAds64 i =
     add64 (add64 (totalGoogleBudget64 i) (totalMetaBudget64 i)) (commercialBudget64 i)"

definition customerLTV64 :: "Inputs \<Rightarrow> jsnum" where
  "customerLTV64 i = mul64 (avgMonthlyServiceFee i) (avgCustomerRetentionMonths i)"

definition convertedCustomers64 :: "Inputs \<Rightarrow> jsnum" where
  "convertedCustomers64 i = mul64 (totalServiceLeads64 i) (serviceLeadConversionRate i)"

definition totalRevenue64 :: "Inputs \<Rightarrow> jsnum" where
  "totalRevenue64 i = mul64 (convertedCustomers64 i) (customerLTV64 i)"

definition roi64 :: "Inputs \<Rightarrow> jsnum" where
  "roi64 i =
     (if js_gt (totalPaidAds64 i) (Fin 0)
      then mul64 (div64 (sub64 (totalRevenue64 i) (totalPaidAds64 i)) (totalPaidAds64 i))
             (Fin 100)
      else Fin 0)"

definition costPerAcquisition64 :: "Inputs \<Rightarrow> jsnum" where
  "costPerAcquisition64 i =
     (if js_gt (convertedCustomers64 i) (Fin 0)
      then div64 (totalPaidAds64 i) (convertedCustomers64 i)
      else Fin 0)"

definition ltvCacRatio64 :: "Inputs \<Rightarrow> jsnum" where
  "ltvCacRatio64 i =
     (if js_gt (costPerAcquisition64 i) (Fin 0)
      then div64 (customerLTV64 i) (costPerAcquisition64 i)
      else Fin 0)"

definition useMarketingCalculations64 :: "Inputs \<Rightarrow> Results" where
  "useMarketingCalculations64 i =
     \<lparr> leadMetrics =
         \<lparr> rmfServiceLeadsAnnual = Math_round (rmfServiceLeadsAnnual64 i),
           aucklandServiceLeadsAnnual = Math_round (aucklandServiceLeadsAnnual64 i),
           totalServiceLeads = Math_round (totalServiceLeads64 i),
           totalFranchiseLeads = Math_round (totalFranchiseLeads64 i),
           totalCommercialLeads = Math_round (totalCommercialLeads64 i),
           totalLeads =
             Math_round
               (add64 (add64 (totalServiceLeads64 i) (totalFranchiseLeads64 i))
                  (totalCommercialLeads64 i)) \<rparr>,
       channelLeads =
         \<lparr> googleServiceLeads = Math_round (googleServiceLeads64 i),
           metaServiceLeads = Math_round (metaServiceLeads64 i) \<rparr>,
       budgetAllocation =
         \<lparr> googleServiceBudget = googleServiceBudget64 i,
           metaServiceBudget = metaServiceBudget64 i,
           googleFranchiseBudget = googleFranchiseBudget64 i,
           metaFranchiseBudget = metaFranchiseBudget64 i,
           commercialBudget = commercialBudget64 i,
           totalGoogleBudget = totalGoogleBudget64 i,
           totalMetaBudget = totalMetaBudget64 i,
           totalPaidAds = totalPaidAds64 i \<rparr>,
       financialMetrics =
         \<lparr> customerLTV = customerLTV64 i,
           convertedCustomers = Math_round (convertedCustomers64 i),
           totalRevenue = totalRevenue64 i,
           roi = roi64 i,
           costPerAcquisition = costPerAcquisition64 i,
           ltvCacRatio = ltvCacRatio64 i,
           averageCPL =
             div64 (totalPaidAds64 i)
               (add64 (add64 (totalServiceLeads64 i) (totalFranchiseLeads64 i))
                  (totalCommercialLeads64 i)) \<rparr> \<rparr>"



abbreviation budgets64 :: "Inputs \<Rightarrow> BudgetAllocation" where
  "budgets64 i \<equiv> budgetAllocation (useMarketingCalculations64 i)"

abbreviation financials64 :: "Inputs \<Rightarrow> FinancialMetrics" where
  "financials64 i \<equiv> financialMetrics (useMarketingCalculations64 i)"

section \<open>Input records\<close>

text \<open>
  Every field of the input record is a finite number.
\<close>

definition finite_inputs :: "Inputs \<Rightarrow> bool" where
  "finite_inputs i \<longleftrightarrow>
     isFinite (rmfRegionCount i) \<and> isFinite (serviceLeadsPerWeekRMF i) \<and>
     isFinite (aucklandServiceLeadsPerWeek i) \<and> isFinite (franchiseLeadsPerMonth i) \<and>
     isFinite (commercialLeadsPerQuarter i) \<and> isFinite (googleServiceCPL i) \<and>
     isFinite (metaServiceCPL i) \<and> isFinite (googleFranchiseCPL i) \<and>
     isFinite (metaFranchiseCPL i) \<and> isFinite (linkedInCommercialCPL i) \<and>
     isFinite (avgMonthlyServiceFee i) \<and> isFinite (avgCustomerRetentionMonths i) \<and>
     isFinite (serviceLeadConversionRate i) \<and> isFinite (googleServiceSplit i)"

text \<open>
  The constraints that section 3 of the specification puts on an input record: the
  region count and the four lead rates are non-negative, the five CPL values are
  positive, the conversion rate and the Google split are fractions between 0 and 1, and
  every field is finite. They are wider than the bounds the calculator component
  applies (\<open>within_bounds\<close> below), so that what holds for every record satisfying
  them holds for every record the component passes to the engine.
\<close>

definition valid_inputs :: "Inputs \<Rightarrow> bool" where
  "valid_inputs i \<longleftrightarrow>
     finite_inputs i \<and>
     js_le (Fin 0) (rmfRegionCount i) \<and> js_le (Fin 0) (serviceLeadsPerWeekRMF i) \<and>
     js_le (Fin 0) (aucklandServiceLeadsPerWeek i) \<and>
     js_le (Fin 0) (franchiseLeadsPerMonth i) \<and>
     js_le (Fin 0) (commercialLeadsPerQuarter i) \<and>
     js_gt (googleServiceCPL i) (Fin 0) \<and> js_gt (metaServiceCPL i) (Fin 0) \<and>
     js_gt (googleFranchiseCPL i) (Fin 0) \<and> js_gt (metaFranchiseCPL i) (Fin 0) \<and>
     js_gt (linkedInCommercialCPL i) (Fin 0) \<and>
     js_le (Fin 0) (serviceLeadConversionRate i) \<and>
     js_le (serviceLeadConversionRate i) (Fin 1) \<and>
     js_le (Fin 0) (googleServiceSplit i) \<and> js_le (googleServiceSplit i) (Fin 1)"

text \<open>
  The bounds the calculator component applies (components/CrewCutMarketingCalculator):
  each field is entered through an \<open>InputGroup\<close>, which commits a finite number
  clamped between the \<open>min\<close> and \<open>max\<close> it is given, and the component gives it the
  bounds of the constants table. The conversion rate and the Google split are entered
  as percentages between 5 and 50 and between 50 and 100, and stored divided by 100.
  The initial state of the component (Scenario A) lies within the bounds.
\<close>

definition in_range :: "rat \<Rightarrow> rat \<Rightarrow> jsnum \<Rightarrow> bool" where
  "in_range lo hi v = (case v of Fin r \<Rightarrow> lo \<le> r \<and> r \<le> hi | _ \<Rightarrow> False)"

definition within_bounds :: "Inputs \<Rightarrow> bool" where
  "within_bounds i \<longleftrightarrow>
     in_range 1 20 (rmfRegionCount i) \<and>
     in_range 1 50 (serviceLeadsPerWeekRMF i) \<and>
     in_range 1 200 (aucklandServiceLeadsPerWeek i) \<and>
     in_range 1 20 (franchiseLeadsPerMonth i) \<and>
     in_range 1 10 (commercialLeadsPerQuarter i) \<and>
     in_range 1 100 (googleServiceCPL i) \<and>
     in_range 1 100 (metaServiceCPL i) \<and>
     in_range 1 100 (googleFranchiseCPL i) \<and>
     in_range 1 100 (metaFranchiseCPL i) \<and>
     in_range 1 200 (linkedInCommercialCPL i) \<and>
     in_range 50 500 (avgMonthlyServiceFee i) \<and>
     in_range 6 60 (avgCustomerRetentionMonths i) \<and>
     in_range (5 / 100) (50 / 100) (serviceLeadConversionRate i) \<and>
     in_range (50 / 100) (100 / 100) (googleServiceSplit i)"

subsection \<open>Example inputs\<close>

text \<open>
  Scenario A: the default inputs (region count, CPL values and customer metrics are the
  defaults of the constants table).
\<close>

definition scenarioA :: Inputs where
  "scenarioA =
     \<lparr> rmfRegionCount = Fin 13,
       serviceLeadsPerWeekRMF = Fin 15,
       aucklandServiceLeadsPerWeek = Fin 100,
       franchiseLeadsPerMonth = Fin 5,
       commercialLeadsPerQuarter = Fin 1,
       googleServiceCPL = Fin 10,
       metaServiceCPL = Fin 8,
       googleFranchiseCPL = Fin 15,
       metaFranchiseCPL = Fin 12,
       linkedInCommercialCPL = Fin 50,
       avgMonthlyServiceFee = Fin 120,
       avgCustomerRetentionMonths = Fin 24,
       serviceLeadConversionRate = Fin (25 / 100),
       googleServiceSplit = Fin (85 / 100) \<rparr>"

text \<open>
  Scenario B, the zero-spend edge case: no lead volume at all, every CPL at its
  minimum of 1.
\<close>

definition scenarioB :: Inputs where
  "scenarioB =
     \<lparr> rmfRegionCount = Fin 13,
       serviceLeadsPerWeekRMF = Fin 0,
       aucklandServiceLeadsPerWeek = Fin 0,
       franchiseLeadsPerMonth = Fin 0,
       commercialLeadsPerQuarter = Fin 0,
       googleServiceCPL = Fin 1,
       metaServiceCPL = Fin 1,
       googleFranchiseCPL = Fin 1,
       metaFranchiseCPL = Fin 1,
       linkedInCommercialCPL = Fin 1,
       avgMonthlyServiceFee = Fin 120,
       avgCustomerRetentionMonths = Fin 24,
       serviceLeadConversionRate = Fin (25 / 100),
       googleServiceSplit = Fin (85 / 100) \<rparr>"

text \<open>
  An input whose two service buckets are both half-integers: 156 service leads a year,
  split 0.625 to 0.375, and a conversion rate of 0.125. Every value and every
  intermediate result is a binary64 number, so both arithmetics agree on it.
\<close>

definition tieSplit :: Inputs where
  "tieSplit =
     \<lparr> rmfRegionCount = Fin 1,
       serviceLeadsPerWeekRMF = Fin 1,
       aucklandServiceLeadsPerWeek = Fin 2,
       franchiseLeadsPerMonth = Fin 5,
       commercialLeadsPerQuarter = Fin 1,
       googleServiceCPL = Fin 10,
       metaServiceCPL = Fin 8,
       googleFranchiseCPL = Fin 15,
       metaFranchiseCPL = Fin 12,
       linkedInCommercialCPL = Fin 50,
       avgMonthlyServiceFee = Fin 120,
       avgCustomerRetentionMonths = Fin 24,
       serviceLeadConversionRate = Fin (125 / 1000),
       googleServiceSplit = Fin (625 / 1000) \<rparr>"


text \<open>
  An input with no lead volume, all of whose values are binary64 numbers.
\<close>

definition zeroLeads :: Inputs where
  "zeroLeads =
     \<lparr> rmfRegionCount = Fin 13,
       serviceLeadsPerWeekRMF = Fin 0,
       aucklandServiceLeadsPerWeek = Fin 0,
       franchiseLeadsPerMonth = Fin 0,
       commercialLeadsPerQuarter = Fin 0,
       googleServiceCPL = Fin 1,
       metaServiceCPL = Fin 1,
       googleFranchiseCPL = Fin 1,
       metaFranchiseCPL = Fin 1,
       linkedInCommercialCPL = Fin 1,
       avgMonthlyServiceFee = Fin 120,
       avgCustomerRetentionMonths = Fin 24,
       serviceLeadConversionRate = Fin (25 / 100),
       googleServiceSplit = Fin (75 / 100) \<rparr>"


text \<open>
  An input with a converted-customer count just above an integer: 5200 service leads a
  year at a conversion rate of 0.07 give 364.00000000000006 in binary64; the monthly fee
  is 50.37 over 60 months.
\<close>

definition nearInteger :: Inputs where
  "nearInteger =
     \<lparr> rmfRegionCount = Fin 1,
       serviceLeadsPerWeekRMF = Fin 1,
       aucklandServiceLeadsPerWeek = Fin 99,
       franchiseLeadsPerMonth = Fin 5,
       commercialLeadsPerQuarter = Fin 1,
       googleServiceCPL = Fin 10,
       metaServiceCPL = Fin 8,
       googleFranchiseCPL = Fin 15,
       metaFranchiseCPL = Fin 12,
       linkedInCommercialCPL = Fin 50,
       avgMonthlyServiceFee = round_to_binary64 (5037 / 100),
       avgCustomerRetentionMonths = Fin 60,
       serviceLeadConversionRate = round_to_binary64 (7 / 100),
       googleServiceSplit = round_to_binary64 (85 / 100) \<rparr>"

section \<open>Evaluation lemmas\<close>

lemmas constants_defs =
  WEEKS_PER_YEAR_def MONTHS_PER_YEAR_def QUARTERS_PER_YEAR_def
  GOOGLE_FRANCHISE_RATIO_def META_FRANCHISE_RATIO_def

lemmas lead_defs =
  rmfServiceLeadsAnnual_of_def aucklandServiceLeadsAnnual_of_def totalServiceLeads_of_def
  totalFranchiseLeads_of_def totalCommercialLeads_of_def
  googleServiceLeads_of_def metaServiceLeads_of_def

lemmas budget_defs =
  googleServiceBudget_of_def metaServiceBudget_of_def googleFranchiseBudget_of_def
  metaFranchiseBudget_of_def commercialBudget_of_def totalGoogleBudget_of_def
  totalMetaBudget_of_def totalPaidAds_of_def

lemmas financial_defs =
  customerLTV_of_def convertedCustomers_of_def totalRevenue_of_def roi_of_def
  costPerAcquisition_of_def ltvCacRatio_of_def

lemmas lead64_defs =
  rmfServiceLeadsAnnual64_def aucklandServiceLeadsAnnual64_def totalServiceLeads64_def
  totalFranchiseLeads64_def totalCommercialLeads64_def
  googleServiceLeads64_def metaServiceLeads64_def

lemmas budget64_defs =
  googleServiceBudget64_def metaServiceBudget64_def googleFranchiseBudget64_def
  metaFranchiseBudget64_def commercialBudget64_def totalGoogleBudget64_def
  totalMetaBudget64_def totalPaidAds64_def GOOGLE_FRANCHISE_RATIO64_def
  META_FRANCHISE_RATIO64_def

lemmas ops64 = add64_def sub64_def mul64_def div64_def

section \<open>Facts about the number operations\<close>

lemma floor_rat_numeral_div [simp]:
  "\<lfloor>(numeral a :: rat) / numeral b\<rfloor> = numeral a div numeral b"
  using floor_divide_of_int_eq [of "numeral a" "numeral b", where ?'a = rat] by simp

lemma floor_rat_one_div [simp]: "\<lfloor>(1 :: rat) / numeral b\<rfloor> = 1 div numeral b"
  using floor_divide_of_int_eq [of 1 "numeral b", where ?'a = rat] by simp


lemma isFinite_js_neg [simp]: "isFinite a \<Longrightarrow> isFinite (js_neg a)"
  by (cases a) simp_all

lemma isFinite_js_add [simp]: "isFinite a \<Longrightarrow> isFinite b \<Longrightarrow> isFinite (js_add a b)"
  by (cases a; cases b) simp_all

lemma isFinite_js_sub [simp]: "isFinite a \<Longrightarrow> isFinite b \<Longrightarrow> isFinite (js_sub a b)"
  by (simp add: js_sub_def)

lemma isFinite_js_mul [simp]: "isFinite a \<Longrightarrow> isFinite b \<Longrightarrow> isFinite (js_mul a b)"
  by (cases a; cases b) simp_all

lemma isFinite_Math_round [simp]: "isFinite (Math_round a) = isFinite a"
  by (cases a) simp_all

lemma js_div_by_zero_not_finite: "\<not> isFinite (js_div a (Fin 0))"
  by (cases a) simp_all

lemma isInteger_Fin: "isInteger (Fin a) \<longleftrightarrow> a \<in> \<int>"
proof
  assume "isInteger (Fin a)"
  then have "a = of_int \<lfloor>a\<rfloor>" by simp
  then show "a \<in> \<int>" by (metis Ints_of_int)
next
  assume "a \<in> \<int>"
  then show "isInteger (Fin a)" by (auto simp add: Ints_def)
qed

lemma round_of_integer:
  fixes a :: rat
  assumes "a \<in> \<int>"
  shows "of_int \<lfloor>a + 1 / 2\<rfloor> = a"
proof -
  from assms obtain n where a: "a = of_int n"
    by (auto simp add: Ints_def)
  have "\<lfloor>(of_int n :: rat) + 1 / 2\<rfloor> = n"
    by linarith
  with a show ?thesis by simp
qed

lemma Math_round_integer: "isInteger x \<Longrightarrow> Math_round x = x"
  by (cases x) (simp_all only: isInteger_Fin Math_round.simps round_of_integer isInteger.simps)



lemma isInteger_numeral [simp]: "isInteger (Fin (numeral n))"
  by (simp only: isInteger_Fin Ints_numeral)



lemma Math_round_whole: "isFinite x \<Longrightarrow> isInteger (Math_round x)"
  by (cases x) simp_all

section \<open>Facts about binary64 rounding\<close>

subsection \<open>The binary exponent\<close>

lemma floor_log2_bounds:
  "1 \<le> x \<Longrightarrow> 0 \<le> floor_log2 x \<and> 2 powi floor_log2 x \<le> x \<and> x < 2 powi (floor_log2 x + 1)"
proof (induction x rule: floor_log2.induct)
  case (1 x)
  show ?case
  proof (cases "2 \<le> x")
    case True
    then have "1 \<le> x / 2" by simp
    with 1 True have ih: "0 \<le> floor_log2 (x / 2)" "2 powi floor_log2 (x / 2) \<le> x / 2"
      "x / 2 < 2 powi (floor_log2 (x / 2) + 1)"
      by blast+
    have eq: "floor_log2 x = floor_log2 (x / 2) + 1"
      using True by (subst floor_log2.simps) simp
    have p: "2 powi (k + 1) = 2 powi k * (2::rat)" for k
      by (simp add: power_int_add)
    from ih show ?thesis
      unfolding eq p by (simp add: field_simps)
  next
    case False
    then have "floor_log2 x = 0"
      by (subst floor_log2.simps) simp
    with False 1 show ?thesis by simp
  qed
qed

lemma ceiling_log2_bounds:
  "1 \<le> x \<Longrightarrow> 0 \<le> ceiling_log2 x \<and> x \<le> 2 powi ceiling_log2 x \<and> 2 powi (ceiling_log2 x - 1) < x"
proof (induction x rule: ceiling_log2.induct)
  case (1 x)
  show ?case
  proof (cases "1 < x")
    case True
    have eq: "ceiling_log2 x = ceiling_log2 (x / 2) + 1"
      using True by (subst ceiling_log2.simps) simp
    have p: "2 powi (k + 1) = 2 powi k * (2::rat)" for k
      by (simp add: power_int_add)
    show ?thesis
    proof (cases "2 \<le> x")
      case t: True
      then have "1 \<le> x / 2" by simp
      with 1 True have ih: "0 \<le> ceiling_log2 (x / 2)" "x / 2 \<le> 2 powi ceiling_log2 (x / 2)"
        "2 powi (ceiling_log2 (x / 2) - 1) < x / 2"
        by blast+
      have "2 powi (ceiling_log2 (x / 2) + 1 - 1) = 2 powi (ceiling_log2 (x / 2) - 1) * (2::rat)"
        using p [of "ceiling_log2 (x / 2) - 1"] by simp
      with ih show ?thesis
        unfolding eq p by (simp add: field_simps)
    next
      case False
      then have "\<not> 1 < x / 2" by simp
      then have "ceiling_log2 (x / 2) = 0"
        by (subst ceiling_log2.simps) simp
      with eq have "ceiling_log2 x = 1" by simp
      with True False show ?thesis by simp
    qed
  next
    case False
    then have "ceiling_log2 x = 0"
      by (subst ceiling_log2.simps) simp
    with False 1 show ?thesis by (simp add: power_int_minus)
  qed
qed

lemma exponent_bounds:
  assumes "0 < x"
  shows "2 powi exponent x \<le> x" and "x < 2 powi (exponent x + 1)"
proof -
  have "2 powi exponent x \<le> x \<and> x < 2 powi (exponent x + 1)"
  proof (cases "1 \<le> x")
    case True
    then show ?thesis
      using floor_log2_bounds [of x] by (simp add: exponent_def)
  next
    case False
    with assms have y: "1 \<le> 1 / x" by simp
    let ?c = "ceiling_log2 (1 / x)"
    from ceiling_log2_bounds [OF y] have c: "1 / x \<le> 2 powi ?c" "2 powi (?c - 1) < 1 / x"
      by blast+
    have pos: "0 < (2::rat) powi k" for k by simp
    have a: "2 powi (- ?c) \<le> x"
    proof -
      have "1 \<le> 2 powi ?c * x"
        using c(1) assms by (simp add: field_simps)
      then have "1 / 2 powi ?c \<le> x"
        using pos [of ?c] by (simp add: field_simps)
      then show ?thesis by (simp add: power_int_minus_divide)
    qed
    have b: "x < 2 powi (- ?c + 1)"
    proof -
      have "2 powi (?c - 1) * x < 1"
        using c(2) assms by (simp add: field_simps)
      then have "x < 1 / 2 powi (?c - 1)"
        using pos [of "?c - 1"] by (simp add: field_simps)
      moreover have "- ?c + 1 = - (?c - 1)" by simp
      ultimately show ?thesis by (simp only: power_int_minus_divide)
    qed
    from a b False show ?thesis by (simp add: exponent_def)
  qed
  then show "2 powi exponent x \<le> x" and "x < 2 powi (exponent x + 1)" by blast+
qed

lemma pow2_less_iff: "(2::rat) powi m < 2 powi n \<longleftrightarrow> m < n"
proof
  assume l: "(2::rat) powi m < 2 powi n"
  show "m < n"
  proof (rule ccontr)
    assume "\<not> m < n"
    then have "n \<le> m" by simp
    then have "(2::rat) powi n \<le> 2 powi m" by (intro power_int_increasing) simp_all
    with l show False by simp
  qed
next
  assume "m < n"
  then show "(2::rat) powi m < 2 powi n" by (intro power_int_strict_increasing) simp_all
qed

lemma pow2_le_iff: "(2::rat) powi m \<le> 2 powi n \<longleftrightarrow> m \<le> n"
  using pow2_less_iff [of n m] by (simp add: not_less [symmetric])

lemma exponent_le:
  assumes "0 < x" "x \<le> 2 powi b"
  shows "exponent x \<le> b"
proof -
  have "(2::rat) powi exponent x \<le> 2 powi b"
    using exponent_bounds(1) [OF assms(1)] assms(2) by simp
  then show ?thesis by (simp only: pow2_le_iff)
qed

lemma exponent_eqI:
  assumes "2 powi k \<le> x" "x < 2 powi (k + 1)"
  shows "exponent x = k"
proof -
  have pos: "0 < x" using assms(1) zero_less_power_int [of "2::rat" k] by linarith
  have "(2::rat) powi k < 2 powi (exponent x + 1)"
    using assms(1) exponent_bounds(2) [OF pos] by simp
  moreover have "(2::rat) powi exponent x < 2 powi (k + 1)"
    using assms(2) exponent_bounds(1) [OF pos] by simp
  ultimately have "k < exponent x + 1" "exponent x < k + 1"
    by (simp_all only: pow2_less_iff)
  then show ?thesis by simp
qed

lemma pow2_nonneg_int: "0 \<le> k \<Longrightarrow> (2::rat) powi k = of_int (2 ^ nat k)"
  by (simp add: power_int_nonneg_exp)

lemma pow2_add: "(2::rat) powi (a + b) = 2 powi a * 2 powi b"
  by (simp add: power_int_add)

subsection \<open>Rounding never crosses a power of two\<close>

lemma roundTiesToEven_le: "r \<le> of_int n \<Longrightarrow> roundTiesToEven r \<le> n"
  unfolding roundTiesToEven_def Let_def by (auto; linarith)

lemma roundTiesToEven_ge: "of_int n \<le> r \<Longrightarrow> n \<le> roundTiesToEven r"
  unfolding roundTiesToEven_def Let_def by (auto; linarith)

lemma roundTiesToEven_of_int [simp]: "roundTiesToEven (of_int n) = n"
  unfolding roundTiesToEven_def Let_def by simp

lemma nearest_on_grid_abs_le:
  assumes x: "\<bar>x\<bar> \<le> 2 powi b" and b: "- 1074 \<le> b"
  shows "\<bar>nearest_on_grid x\<bar> \<le> 2 powi b"
proof (cases "x = 0")
  case True
  have "roundTiesToEven 0 = 0"
    using roundTiesToEven_of_int [of 0] by simp
  with True show ?thesis by (simp add: nearest_on_grid_def)
next
  case False
  define e where "e = grid_exponent x"
  define m where "m = roundTiesToEven (x / 2 powi e)"
  have y: "nearest_on_grid x = of_int m * 2 powi e"
    by (simp add: nearest_on_grid_def m_def e_def)
  have pe: "0 < (2::rat) powi e" by simp
  from False have ax: "0 < \<bar>x\<bar>" by simp
  have "exponent \<bar>x\<bar> \<le> b" using ax x by (rule exponent_le)
  with b have eb: "e \<le> b" by (simp add: e_def grid_exponent_def)
  define n :: int where "n = 2 ^ nat (b - e)"
  have n: "(of_int n :: rat) = 2 powi (b - e)"
    using eb by (simp add: n_def pow2_nonneg_int)
  have split_b: "(2::rat) powi b = of_int n * 2 powi e"
    using pow2_add [of "b - e" e] by (simp add: n)
  from x have "x \<le> of_int n * 2 powi e" "- (of_int n * 2 powi e) \<le> x"
    unfolding split_b by linarith+
  then have "x / 2 powi e \<le> of_int n" "of_int (- n) \<le> x / 2 powi e"
    using pe by (simp_all add: field_simps)
  then have mb: "m \<le> n" "- n \<le> m"
    unfolding m_def by (simp_all only: roundTiesToEven_le roundTiesToEven_ge)
  then have "\<bar>m\<bar> \<le> n" by linarith
  then have "\<bar>(of_int m :: rat)\<bar> \<le> of_int n"
    by (metis of_int_abs of_int_le_iff)
  then have "\<bar>of_int m :: rat\<bar> * 2 powi e \<le> of_int n * 2 powi e"
    using pe by (simp add: mult_right_mono)
  then show ?thesis
    unfolding y split_b by (simp add: abs_mult)
qed

lemma nearest_on_grid_sign:
  "(0 \<le> x \<longrightarrow> 0 \<le> nearest_on_grid x) \<and> (x \<le> 0 \<longrightarrow> nearest_on_grid x \<le> 0)"
proof -
  define e where "e = grid_exponent x"
  define m where "m = roundTiesToEven (x / 2 powi e)"
  have y: "nearest_on_grid x = of_int m * 2 powi e"
    by (simp add: nearest_on_grid_def m_def e_def)
  have pe: "0 < (2::rat) powi e" by simp
  have sgn1: "0 \<le> of_int m * (2::rat) powi e" if "0 \<le> x"
  proof -
    from that pe have "of_int 0 \<le> x / 2 powi e" by simp
    then have "0 \<le> m" unfolding m_def by (rule roundTiesToEven_ge)
    then show ?thesis using pe by simp
  qed
  have sgn2: "of_int m * (2::rat) powi e \<le> 0" if "x \<le> 0"
  proof -
    from that pe have "x / 2 powi e \<le> of_int 0" by (simp add: field_simps)
    then have "m \<le> 0" unfolding m_def by (rule roundTiesToEven_le)
    then show ?thesis using pe by (simp add: mult_le_0_iff)
  qed
  from sgn1 sgn2 show ?thesis unfolding y by blast
qed

lemma nearest_on_grid_ge:
  assumes x: "2 powi a \<le> x" and a: "- 1074 \<le> a"
  shows "2 powi a \<le> nearest_on_grid x"
proof -
  have pos: "0 < x" using x zero_less_power_int [of "2::rat" a] by linarith
  then have ax: "\<bar>x\<bar> = x" by simp
  define e where "e = grid_exponent x"
  define m where "m = roundTiesToEven (x / 2 powi e)"
  have y: "nearest_on_grid x = of_int m * 2 powi e"
    by (simp add: nearest_on_grid_def m_def e_def)
  have pe: "0 < (2::rat) powi e" by simp
  show ?thesis
  proof (cases "e \<le> a")
    case True
    define n :: int where "n = 2 ^ nat (a - e)"
    have n: "(of_int n :: rat) = 2 powi (a - e)"
      using True by (simp add: n_def pow2_nonneg_int)
    have split_a: "(2::rat) powi a = of_int n * 2 powi e"
      using pow2_add [of "a - e" e] by (simp add: n)
    have "of_int n \<le> x / 2 powi e"
      using x pe unfolding split_a by (simp add: field_simps)
    then have "n \<le> m" unfolding m_def by (rule roundTiesToEven_ge)
    then have "(of_int n :: rat) * 2 powi e \<le> of_int m * 2 powi e"
      using pe by (simp add: mult_right_mono)
    then show ?thesis unfolding y split_a .
  next
    case False
    with a have e: "e = exponent x - 52" by (simp add: e_def grid_exponent_def ax)
    have split_E: "(2::rat) powi exponent x = of_int (2 ^ 52) * 2 powi e"
      using pow2_add [of 52 e] by (simp add: e)
    have "of_int (2 ^ 52) \<le> x / 2 powi e"
      using exponent_bounds(1) [OF pos] pe unfolding split_E by (simp add: field_simps)
    then have "2 ^ 52 \<le> m" unfolding m_def by (rule roundTiesToEven_ge)
    then have "1 \<le> m" by simp
    then have "(1::rat) \<le> of_int m" by simp
    then have "1 * (2::rat) powi e \<le> of_int m * 2 powi e"
      using pe by (intro mult_right_mono) simp_all
    then have "(2::rat) powi e \<le> of_int m * 2 powi e"
      by (simp only: mult_1)
    moreover have "(2::rat) powi a \<le> 2 powi e"
      using False by (simp only: pow2_le_iff)
    ultimately show ?thesis unfolding y by (rule order_trans [rotated])
  qed
qed

lemma round_to_binary64_finite:
  assumes "\<bar>x\<bar> \<le> 2 powi b" "- 1074 \<le> b" "b \<le> 1023"
  shows "round_to_binary64 x = Fin (nearest_on_grid x)"
proof -
  have "(2::rat) powi b < 2 powi 1024"
    using assms(3) by (simp only: pow2_less_iff)
  with nearest_on_grid_abs_le [OF assms(1,2)] have "\<not> overflow_threshold \<le> \<bar>nearest_on_grid x\<bar>"
    unfolding overflow_threshold_def by linarith
  then show ?thesis by (simp add: round_to_binary64_def)
qed

subsection \<open>Evaluation\<close>

text \<open>
  The rounding of a concrete number is evaluated by the simplifier once the binary
  exponent is known; the exponents from -8 to 40 cover the examples.
\<close>

lemmas exponent_evals = exponent_eqI [of "- 8"] exponent_eqI [of "- 7"] exponent_eqI [of "- 6"] exponent_eqI [of "- 5"] exponent_eqI [of "- 4"] exponent_eqI [of "- 3"] exponent_eqI [of "- 2"] exponent_eqI [of "- 1"] exponent_eqI [of "0"] exponent_eqI [of "1"] exponent_eqI [of "2"] exponent_eqI [of "3"] exponent_eqI [of "4"] exponent_eqI [of "5"] exponent_eqI [of "6"] exponent_eqI [of "7"] exponent_eqI [of "8"] exponent_eqI [of "9"] exponent_eqI [of "10"] exponent_eqI [of "11"] exponent_eqI [of "12"] exponent_eqI [of "13"] exponent_eqI [of "14"] exponent_eqI [of "15"] exponent_eqI [of "16"] exponent_eqI [of "17"] exponent_eqI [of "18"] exponent_eqI [of "19"] exponent_eqI [of "20"] exponent_eqI [of "21"] exponent_eqI [of "22"] exponent_eqI [of "23"] exponent_eqI [of "24"] exponent_eqI [of "25"] exponent_eqI [of "26"] exponent_eqI [of "27"] exponent_eqI [of "28"] exponent_eqI [of "29"] exponent_eqI [of "30"] exponent_eqI [of "31"] exponent_eqI [of "32"] exponent_eqI [of "33"] exponent_eqI [of "34"] exponent_eqI [of "35"] exponent_eqI [of "36"] exponent_eqI [of "37"] exponent_eqI [of "38"] exponent_eqI [of "39"] exponent_eqI [of "40"]

lemmas binary64_eval =
  round_to_binary64_def nearest_on_grid_def grid_exponent_def overflow_threshold_def roundTiesToEven_def
  Let_def exponent_evals

lemma literals:
  "round_to_binary64 (5037 / 100) = Fin (7088947288457871 / 140737488355328)"
  "round_to_binary64 (7 / 100) = Fin (1261007895663739 / 18014398509481984)"
  "round_to_binary64 (85 / 100) = Fin (7656119366529843 / 9007199254740992)"
  "round_to_binary64 (7 / 10) = Fin (3152519739159347 / 4503599627370496)"
  "round_to_binary64 (3 / 10) = Fin (5404319552844595 / 18014398509481984)"
  by (simp_all add: binary64_eval)


subsection \<open>Ranges\<close>

lemma in_range_Fin [simp]: "in_range lo hi (Fin r) \<longleftrightarrow> lo \<le> r \<and> r \<le> hi"
  by (simp add: in_range_def)

lemma in_rangeE:
  assumes "in_range lo hi v"
  obtains r where "v = Fin r" "lo \<le> r" "r \<le> hi"
  using assms by (cases v) (simp_all add: in_range_def)

lemma in_range_isFinite: "in_range lo hi v \<Longrightarrow> isFinite v"
  by (erule in_rangeE) simp

lemma in_range_positive: "in_range lo hi v \<Longrightarrow> 0 < lo \<Longrightarrow> js_gt v (Fin 0)"
  by (erule in_rangeE) simp

lemma round_in_range:
  assumes "2 powi a \<le> x" "x \<le> 2 powi b" "- 1074 \<le> a" "b \<le> 1023"
  shows "in_range (2 powi a) (2 powi b) (round_to_binary64 x)"
proof -
  have pos: "0 < x" using assms(1) zero_less_power_int [of "2::rat" a] by linarith
  have "(2::rat) powi a \<le> 2 powi b" using assms(1,2) by simp
  then have "a \<le> b" by (simp only: pow2_le_iff)
  with assms(3) have b: "- 1074 \<le> b" by simp
  from pos assms(2) have ax: "\<bar>x\<bar> \<le> 2 powi b" by simp
  have "round_to_binary64 x = Fin (nearest_on_grid x)"
    using ax b assms(4) by (rule round_to_binary64_finite)
  moreover have "nearest_on_grid x \<le> 2 powi b"
    using nearest_on_grid_abs_le [OF ax b] by linarith
  moreover have "2 powi a \<le> nearest_on_grid x"
    using assms(1,3) by (rule nearest_on_grid_ge)
  ultimately show ?thesis by simp
qed

lemma round_in_range_nonneg:
  assumes "0 \<le> x" "x \<le> 2 powi b" "- 1074 \<le> b" "b \<le> 1023"
  shows "in_range 0 (2 powi b) (round_to_binary64 x)"
proof -
  from assms(1,2) have ax: "\<bar>x\<bar> \<le> 2 powi b" by simp
  have "round_to_binary64 x = Fin (nearest_on_grid x)"
    using ax assms(3,4) by (rule round_to_binary64_finite)
  moreover have "nearest_on_grid x \<le> 2 powi b"
    using nearest_on_grid_abs_le [OF ax assms(3)] by linarith
  moreover have "0 \<le> nearest_on_grid x"
    using nearest_on_grid_sign [of x] assms(1) by blast
  ultimately show ?thesis by simp
qed

lemma round_in_range_abs:
  assumes "\<bar>x\<bar> \<le> 2 powi b" "- 1074 \<le> b" "b \<le> 1023"
  shows "in_range (- (2 powi b)) (2 powi b) (round_to_binary64 x)"
proof -
  have "round_to_binary64 x = Fin (nearest_on_grid x)"
    using assms by (rule round_to_binary64_finite)
  moreover have "\<bar>nearest_on_grid x\<bar> \<le> 2 powi b"
    using assms(1,2) by (rule nearest_on_grid_abs_le)
  ultimately show ?thesis by (simp add: abs_le_iff)
qed

lemma mul64_range:
  assumes u: "in_range a b u" and v: "in_range c d v" and nn: "0 \<le> a" "0 \<le> c"
    and lo: "2 powi j \<le> a * c" and hi: "b * d \<le> 2 powi k" and jk: "- 1074 \<le> j" "k \<le> 1023"
  shows "in_range (2 powi j) (2 powi k) (mul64 u v)"
proof -
  from u obtain x where x: "u = Fin x" "a \<le> x" "x \<le> b" by (rule in_rangeE)
  from v obtain y where y: "v = Fin y" "c \<le> y" "y \<le> d" by (rule in_rangeE)
  have "a * c \<le> x * y" using x y nn by (intro mult_mono) simp_all
  moreover have "x * y \<le> b * d" using x y nn by (intro mult_mono) simp_all
  ultimately have "2 powi j \<le> x * y" "x * y \<le> 2 powi k" using lo hi by simp_all
  then show ?thesis
    unfolding mul64_def x y using jk by (simp add: round_in_range)
qed

lemma mul64_range_nonneg:
  assumes u: "in_range a b u" and v: "in_range c d v" and nn: "0 \<le> a" "0 \<le> c"
    and hi: "b * d \<le> 2 powi k" and k: "- 1074 \<le> k" "k \<le> 1023"
  shows "in_range 0 (2 powi k) (mul64 u v)"
proof -
  from u obtain x where x: "u = Fin x" "a \<le> x" "x \<le> b" by (rule in_rangeE)
  from v obtain y where y: "v = Fin y" "c \<le> y" "y \<le> d" by (rule in_rangeE)
  have "0 \<le> x * y" using x y nn by simp
  moreover have "x * y \<le> b * d" using x y nn by (intro mult_mono) simp_all
  ultimately have "0 \<le> x * y" "x * y \<le> 2 powi k" using hi by simp_all
  then show ?thesis
    unfolding mul64_def x y using k by (simp add: round_in_range_nonneg)
qed

lemma mul64_range_abs:
  assumes u: "in_range (- n) n u" and v: "in_range c d v" and nn: "0 \<le> c"
    and hi: "n * d \<le> 2 powi k" and k: "- 1074 \<le> k" "k \<le> 1023"
  shows "in_range (- (2 powi k)) (2 powi k) (mul64 u v)"
proof -
  from u obtain x where x: "u = Fin x" "- n \<le> x" "x \<le> n" by (rule in_rangeE)
  from v obtain y where y: "v = Fin y" "c \<le> y" "y \<le> d" by (rule in_rangeE)
  from x have ax: "\<bar>x\<bar> \<le> n" by (simp add: abs_le_iff)
  from y nn have ay: "\<bar>y\<bar> \<le> d" by simp
  have "\<bar>x * y\<bar> = \<bar>x\<bar> * \<bar>y\<bar>" by (simp add: abs_mult)
  also have "\<dots> \<le> n * d" using ax ay by (intro mult_mono) simp_all
  finally have "\<bar>x * y\<bar> \<le> 2 powi k" using hi by simp
  then show ?thesis
    unfolding mul64_def x y using k by (simp add: round_in_range_abs)
qed

lemma add64_range:
  assumes u: "in_range a b u" and v: "in_range c d v"
    and lo: "2 powi j \<le> a + c" and hi: "b + d \<le> 2 powi k" and jk: "- 1074 \<le> j" "k \<le> 1023"
  shows "in_range (2 powi j) (2 powi k) (add64 u v)"
proof -
  from u obtain x where x: "u = Fin x" "a \<le> x" "x \<le> b" by (rule in_rangeE)
  from v obtain y where y: "v = Fin y" "c \<le> y" "y \<le> d" by (rule in_rangeE)
  have "2 powi j \<le> x + y" "x + y \<le> 2 powi k" using x y lo hi by simp_all
  then show ?thesis
    unfolding add64_def x y using jk by (simp add: round_in_range)
qed

lemma sub64_range_nonneg:
  assumes u: "in_range a b u" and v: "in_range c d v"
    and lo: "0 \<le> a - d" and hi: "b - c \<le> 2 powi k" and k: "- 1074 \<le> k" "k \<le> 1023"
  shows "in_range 0 (2 powi k) (sub64 u v)"
proof -
  from u obtain x where x: "u = Fin x" "a \<le> x" "x \<le> b" by (rule in_rangeE)
  from v obtain y where y: "v = Fin y" "c \<le> y" "y \<le> d" by (rule in_rangeE)
  have "0 \<le> x - y" "x - y \<le> 2 powi k" using x y lo hi by simp_all
  then show ?thesis
    unfolding sub64_def x y using k by (simp add: round_in_range_nonneg)
qed

lemma sub64_range_abs:
  assumes u: "in_range a b u" and v: "in_range c d v"
    and lo: "- (2 powi k) \<le> a - d" and hi: "b - c \<le> 2 powi k" and k: "- 1074 \<le> k" "k \<le> 1023"
  shows "in_range (- (2 powi k)) (2 powi k) (sub64 u v)"
proof -
  from u obtain x where x: "u = Fin x" "a \<le> x" "x \<le> b" by (rule in_rangeE)
  from v obtain y where y: "v = Fin y" "c \<le> y" "y \<le> d" by (rule in_rangeE)
  have "\<bar>x - y\<bar> \<le> 2 powi k" using x y lo hi by (simp add: abs_le_iff)
  then show ?thesis
    unfolding sub64_def x y using k by (simp add: round_in_range_abs)
qed

lemma div64_range:
  assumes u: "in_range a b u" and v: "in_range c d v" and pos: "0 \<le> a" "0 < c"
    and lo: "2 powi j \<le> a / d" and hi: "b / c \<le> 2 powi k" and jk: "- 1074 \<le> j" "k \<le> 1023"
  shows "in_range (2 powi j) (2 powi k) (div64 u v)"
proof -
  from u obtain x where x: "u = Fin x" "a \<le> x" "x \<le> b" by (rule in_rangeE)
  from v obtain y where y: "v = Fin y" "c \<le> y" "y \<le> d" by (rule in_rangeE)
  from pos y have ypos: "0 < y" "0 < d" by simp_all
  have "a / d \<le> x / y" using x y pos ypos by (intro frac_le) simp_all
  moreover have "x / y \<le> b / c" using x y pos ypos by (intro frac_le) simp_all
  ultimately have "2 powi j \<le> x / y" "x / y \<le> 2 powi k" using lo hi by simp_all
  then show ?thesis
    unfolding div64_def x y using jk ypos by (simp add: round_in_range)
qed

lemma div64_range_abs:
  assumes u: "in_range (- n) n u" and v: "in_range c d v" and pos: "0 < c"
    and hi: "n / c \<le> 2 powi k" and k: "- 1074 \<le> k" "k \<le> 1023"
  shows "in_range (- (2 powi k)) (2 powi k) (div64 u v)"
proof -
  from u obtain x where x: "u = Fin x" "- n \<le> x" "x \<le> n" by (rule in_rangeE)
  from v obtain y where y: "v = Fin y" "c \<le> y" "y \<le> d" by (rule in_rangeE)
  from pos y have ypos: "0 < y" by simp
  from x have ax: "\<bar>x\<bar> \<le> n" by (simp add: abs_le_iff) 
  have "\<bar>x / y\<bar> = \<bar>x\<bar> / y" using ypos by simp
  also have "\<dots> \<le> n / c" using ax y pos ypos by (intro frac_le) simp_all
  finally have "\<bar>x / y\<bar> \<le> 2 powi k" using hi by simp
  then show ?thesis
    unfolding div64_def x y using k ypos by (simp add: round_in_range_abs)
qed

lemma Math_round_positive:
  assumes "in_range lo hi v" "1 \<le> lo"
  shows "js_gt (Math_round v) (Fin 0)"
proof -
  from assms(1) obtain r where r: "v = Fin r" "lo \<le> r" by (rule in_rangeE)
  with assms(2) have "1 \<le> \<lfloor>r + 1 / 2\<rfloor>" by linarith
  then have "(0::rat) < of_int \<lfloor>r + 1 / 2\<rfloor>" by simp
  with r show ?thesis by simp
qed

section \<open>Facts about input records\<close>






lemma within_bounds_valid: "within_bounds i \<Longrightarrow> valid_inputs i"
  unfolding within_bounds_def valid_inputs_def finite_inputs_def
  by (auto elim!: in_rangeE)

lemma within_bounds_tieSplit: "within_bounds tieSplit"
  by (simp add: within_bounds_def tieSplit_def)


lemma within_bounds_nearInteger: "within_bounds nearInteger"
  unfolding within_bounds_def nearInteger_def literals by simp

text \<open>
  The ranges of the values the engine computes on a record within the bounds.
\<close>

lemma ranges_within_bounds:
  assumes "within_bounds i"
  shows "in_range (2 powi 6) (2 powi 17) (totalServiceLeads64 i)"
    and "in_range (2 powi 5) (2 powi 27) (totalPaidAds64 i)"
    and "in_range (2 powi 8) (2 powi 15) (customerLTV64 i)"
    and "in_range (2 powi 1) (2 powi 16) (convertedCustomers64 i)"
    and "in_range (2 powi 9) (2 powi 31) (totalRevenue64 i)"
    and "in_range (2 powi 5) (2 powi 16) (rmfServiceLeadsAnnual64 i)"
    and "in_range (2 powi 5) (2 powi 14) (aucklandServiceLeadsAnnual64 i)"
    and "in_range (2 powi 3) (2 powi 8) (totalFranchiseLeads64 i)"
    and "in_range (2 powi 2) (2 powi 6) (totalCommercialLeads64 i)"
    and "in_range (2 powi 5) (2 powi 17) (googleServiceLeads64 i)"
    and "in_range 0 (2 powi 16) (metaServiceLeads64 i)"
    and "in_range (2 powi 6) (2 powi 19)
      (add64 (add64 (totalServiceLeads64 i) (totalFranchiseLeads64 i))
         (totalCommercialLeads64 i))"
proof -
  from assms have rc: "in_range 1 20 (rmfRegionCount i)"
    and rw: "in_range 1 50 (serviceLeadsPerWeekRMF i)"
    and aw: "in_range 1 200 (aucklandServiceLeadsPerWeek i)"
    and fm: "in_range 1 20 (franchiseLeadsPerMonth i)"
    and cq: "in_range 1 10 (commercialLeadsPerQuarter i)"
    and gs: "in_range 1 100 (googleServiceCPL i)"
    and ms: "in_range 1 100 (metaServiceCPL i)"
    and gf: "in_range 1 100 (googleFranchiseCPL i)"
    and mf: "in_range 1 100 (metaFranchiseCPL i)"
    and lc: "in_range 1 200 (linkedInCommercialCPL i)"
    and fee: "in_range 50 500 (avgMonthlyServiceFee i)"
    and ret: "in_range 6 60 (avgCustomerRetentionMonths i)"
    and conv: "in_range (5 / 100) (50 / 100) (serviceLeadConversionRate i)"
    and split: "in_range (50 / 100) (100 / 100) (googleServiceSplit i)"
    by (simp_all add: within_bounds_def)
  have w52: "in_range 52 52 WEEKS_PER_YEAR" and m12: "in_range 12 12 MONTHS_PER_YEAR"
    and q4: "in_range 4 4 QUARTERS_PER_YEAR" and one: "in_range 1 1 (Fin 1)"
    by (simp_all add: constants_defs)
  have g7: "in_range (2 powi (- 1)) (2 powi 0) GOOGLE_FRANCHISE_RATIO64"
    unfolding GOOGLE_FRANCHISE_RATIO64_def by (rule round_in_range) simp_all
  have m3: "in_range (2 powi (- 2)) (2 powi (- 1)) META_FRANCHISE_RATIO64"
    unfolding META_FRANCHISE_RATIO64_def by (rule round_in_range) simp_all
  have p1: "in_range (2 powi 0) (2 powi 10)
      (mul64 (rmfRegionCount i) (serviceLeadsPerWeekRMF i))"
    by (rule mul64_range [OF rc rw]) simp_all
  show rmf: "in_range (2 powi 5) (2 powi 16) (rmfServiceLeadsAnnual64 i)"
    unfolding rmfServiceLeadsAnnual64_def by (rule mul64_range [OF p1 w52]) simp_all
  show auck: "in_range (2 powi 5) (2 powi 14) (aucklandServiceLeadsAnnual64 i)"
    unfolding aucklandServiceLeadsAnnual64_def by (rule mul64_range [OF aw w52]) simp_all
  show T: "in_range (2 powi 6) (2 powi 17) (totalServiceLeads64 i)"
    unfolding totalServiceLeads64_def by (rule add64_range [OF rmf auck]) simp_all
  show F: "in_range (2 powi 3) (2 powi 8) (totalFranchiseLeads64 i)"
    unfolding totalFranchiseLeads64_def by (rule mul64_range [OF fm m12]) simp_all
  show C: "in_range (2 powi 2) (2 powi 6) (totalCommercialLeads64 i)"
    unfolding totalCommercialLeads64_def by (rule mul64_range [OF cq q4]) simp_all
  show g: "in_range (2 powi 5) (2 powi 17) (googleServiceLeads64 i)"
    unfolding googleServiceLeads64_def by (rule mul64_range [OF T split]) simp_all
  have om: "in_range 0 (2 powi (- 1)) (sub64 (Fin 1) (googleServiceSplit i))"
    by (rule sub64_range_nonneg [OF one split]) simp_all
  show m: "in_range 0 (2 powi 16) (metaServiceLeads64 i)"
    unfolding metaServiceLeads64_def by (rule mul64_range_nonneg [OF T om]) simp_all
  have gSB: "in_range (2 powi 5) (2 powi 24) (googleServiceBudget64 i)"
    unfolding googleServiceBudget64_def by (rule mul64_range [OF g gs]) simp_all
  have mSB: "in_range 0 (2 powi 23) (metaServiceBudget64 i)"
    unfolding metaServiceBudget64_def by (rule mul64_range_nonneg [OF m ms]) simp_all
  have f7: "in_range (2 powi 2) (2 powi 8) (mul64 (totalFranchiseLeads64 i) GOOGLE_FRANCHISE_RATIO64)"
    by (rule mul64_range [OF F g7]) simp_all
  have gFB: "in_range (2 powi 2) (2 powi 15) (googleFranchiseBudget64 i)"
    unfolding googleFranchiseBudget64_def by (rule mul64_range [OF f7 gf]) simp_all
  have f3: "in_range (2 powi 1) (2 powi 7) (mul64 (totalFranchiseLeads64 i) META_FRANCHISE_RATIO64)"
    by (rule mul64_range [OF F m3]) simp_all
  have mFB: "in_range (2 powi 1) (2 powi 14) (metaFranchiseBudget64 i)"
    unfolding metaFranchiseBudget64_def by (rule mul64_range [OF f3 mf]) simp_all
  have cB: "in_range (2 powi 2) (2 powi 14) (commercialBudget64 i)"
    unfolding commercialBudget64_def by (rule mul64_range [OF C lc]) simp_all
  have tG: "in_range (2 powi 5) (2 powi 25) (totalGoogleBudget64 i)"
    unfolding totalGoogleBudget64_def by (rule add64_range [OF gSB gFB]) simp_all
  have tM: "in_range (2 powi 1) (2 powi 24) (totalMetaBudget64 i)"
    unfolding totalMetaBudget64_def by (rule add64_range [OF mSB mFB]) simp_all
  have s1: "in_range (2 powi 5) (2 powi 26) (add64 (totalGoogleBudget64 i) (totalMetaBudget64 i))"
    by (rule add64_range [OF tG tM]) simp_all
  show "in_range (2 powi 5) (2 powi 27) (totalPaidAds64 i)"
    unfolding totalPaidAds64_def by (rule add64_range [OF s1 cB]) simp_all
  show ltv: "in_range (2 powi 8) (2 powi 15) (customerLTV64 i)"
    unfolding customerLTV64_def by (rule mul64_range [OF fee ret]) simp_all
  show cc: "in_range (2 powi 1) (2 powi 16) (convertedCustomers64 i)"
    unfolding convertedCustomers64_def by (rule mul64_range [OF T conv]) simp_all
  show "in_range (2 powi 9) (2 powi 31) (totalRevenue64 i)"
    unfolding totalRevenue64_def by (rule mul64_range [OF cc ltv]) simp_all
  have TF: "in_range (2 powi 6) (2 powi 18)
      (add64 (totalServiceLeads64 i) (totalFranchiseLeads64 i))"
    by (rule add64_range [OF T F]) simp_all
  show "in_range (2 powi 6) (2 powi 19)
      (add64 (add64 (totalServiceLeads64 i) (totalFranchiseLeads64 i))
         (totalCommercialLeads64 i))"
    by (rule add64_range [OF TF C]) simp_all
qed

lemma ratios_within_bounds:
  assumes "within_bounds i"
  shows "isFinite (roi64 i)"
    and "in_range (2 powi (- 11)) (2 powi 26) (costPerAcquisition64 i)"
    and "in_range (2 powi (- 18)) (2 powi 26) (ltvCacRatio64 i)"
proof -
  note r = ranges_within_bounds [OF assms]
  have spend: "js_gt (totalPaidAds64 i) (Fin 0)"
    using r(2) by (rule in_range_positive) simp
  have d: "in_range (- (2 powi 31)) (2 powi 31) (sub64 (totalRevenue64 i) (totalPaidAds64 i))"
    by (rule sub64_range_abs [OF r(5) r(2)]) simp_all
  have q: "in_range (- (2 powi 26)) (2 powi 26)
      (div64 (sub64 (totalRevenue64 i) (totalPaidAds64 i)) (totalPaidAds64 i))"
    by (rule div64_range_abs [OF d r(2)]) simp_all
  have h: "in_range 100 100 (Fin 100)" by simp
  have "in_range (- (2 powi 33)) (2 powi 33)
      (mul64 (div64 (sub64 (totalRevenue64 i) (totalPaidAds64 i)) (totalPaidAds64 i)) (Fin 100))"
    by (rule mul64_range_abs [OF q h]) simp_all
  then show "isFinite (roi64 i)"
    using spend by (simp add: roi64_def in_range_isFinite)
  have cc: "js_gt (convertedCustomers64 i) (Fin 0)"
    using r(4) by (rule in_range_positive) simp
  have "in_range (2 powi (- 11)) (2 powi 26) (div64 (totalPaidAds64 i) (convertedCustomers64 i))"
    by (rule div64_range [OF r(2) r(4)]) simp_all
  then show cpa: "in_range (2 powi (- 11)) (2 powi 26) (costPerAcquisition64 i)"
    using cc by (simp add: costPerAcquisition64_def)
  have cpos: "js_gt (costPerAcquisition64 i) (Fin 0)"
    using cpa by (rule in_range_positive) simp
  have "in_range (2 powi (- 18)) (2 powi 26) (div64 (customerLTV64 i) (costPerAcquisition64 i))"
    by (rule div64_range [OF r(3) cpa]) simp_all
  then show "in_range (2 powi (- 18)) (2 powi 26) (ltvCacRatio64 i)"
    using cpos by (simp add: ltvCacRatio64_def)
qed

subsection \<open>The binary64 engine on the examples\<close>

lemma tieSplit64_values:
  "totalServiceLeads64 tieSplit = Fin 156"
  "googleServiceLeads64 tieSplit = Fin (195 / 2)"
  "metaServiceLeads64 tieSplit = Fin (117 / 2)"
  "convertedCustomers64 tieSplit = Fin (39 / 2)"
  "customerLTV64 tieSplit = Fin 2880"
  "totalRevenue64 tieSplit = Fin 56160"
  by (simp_all add: tieSplit_def lead64_defs convertedCustomers64_def customerLTV64_def
      totalRevenue64_def constants_defs ops64 binary64_eval js_sub_def)


lemma zeroLeads_values:
  "totalPaidAds64 zeroLeads = Fin 0" "convertedCustomers64 zeroLeads = Fin 0"
proof -
  have z: "round_to_binary64 0 = Fin 0"
    using roundTiesToEven_of_int [of 0]
    by (simp add: round_to_binary64_def nearest_on_grid_def overflow_threshold_def)
  have T: "totalServiceLeads64 zeroLeads = Fin 0"
    by (simp add: zeroLeads_def lead64_defs constants_defs ops64 z)
  have F: "totalFranchiseLeads64 zeroLeads = Fin 0" "totalCommercialLeads64 zeroLeads = Fin 0"
    by (simp_all add: zeroLeads_def lead64_defs constants_defs ops64 z)
  have g: "googleServiceLeads64 zeroLeads = Fin 0" "metaServiceLeads64 zeroLeads = Fin 0"
    by (simp_all add: googleServiceLeads64_def metaServiceLeads64_def T)
      (simp_all add: zeroLeads_def ops64 z binary64_eval)
  show "totalPaidAds64 zeroLeads = Fin 0"
    by (simp add: totalPaidAds64_def totalGoogleBudget64_def totalMetaBudget64_def
        googleServiceBudget64_def metaServiceBudget64_def googleFranchiseBudget64_def
        metaFranchiseBudget64_def commercialBudget64_def g F)
      (simp add: zeroLeads_def ops64 z GOOGLE_FRANCHISE_RATIO64_def META_FRANCHISE_RATIO64_def
        literals)
  show "convertedCustomers64 zeroLeads = Fin 0"
    by (simp add: convertedCustomers64_def T) (simp add: zeroLeads_def ops64 z)
qed

lemma nearInteger_T: "totalServiceLeads64 nearInteger = Fin 5200"
  by (simp add: nearInteger_def lead64_defs constants_defs ops64 binary64_eval)

lemma nearInteger_cc:
  "convertedCustomers64 nearInteger = Fin (6403555720167425 / 17592186044416)"
  by (simp add: convertedCustomers64_def nearInteger_T)
    (simp add: nearInteger_def literals ops64 binary64_eval)

lemma nearInteger_ltv:
  "customerLTV64 nearInteger = Fin (3322944041464627 / 1099511627776)"
  by (simp add: customerLTV64_def nearInteger_def literals ops64 binary64_eval)

lemma nearInteger_rev:
  "totalRevenue64 nearInteger = Fin (4724811058957517 / 4294967296)"
  by (simp add: totalRevenue64_def nearInteger_cc nearInteger_ltv ops64 binary64_eval)

lemma nearInteger_prod:
  "mul64 (Math_round (convertedCustomers64 nearInteger)) (customerLTV64 nearInteger) =
     Fin (4724811058957517 / 4294967296)"
  by (simp add: nearInteger_cc nearInteger_ltv ops64 binary64_eval)

section \<open>Which fields the engine rounds\<close>




section \<open>Guarded and unguarded divisions\<close>

text \<open>
  C2. On every input record within the bounds of the component the three guarded
  return metrics are finite in binary64 arithmetic; there the total paid spend, the
  converted-customer count (unrounded and as returned) and \<open>costPerAcquisition\<close> are
  all positive, so that no guard is taken. On every input record whatsoever each guard
  yields 0: if the total paid spend is 0 then \<open>roi\<close> is 0; if the converted-customer
  count that the guard tests, the unrounded one, is 0 then \<open>costPerAcquisition\<close> is
  0; if \<open>costPerAcquisition\<close> is 0 then \<open>ltvCacRatio\<close> is 0.
\<close>

theorem guarded_metrics_zero_guard:
  "(within_bounds i \<longrightarrow>
      isFinite (roi (financials64 i)) \<and>
      isFinite (costPerAcquisition (financials64 i)) \<and>
      isFinite (ltvCacRatio (financials64 i)) \<and>
      js_gt (totalPaidAds (budgets64 i)) (Fin 0) \<and>
      js_gt (convertedCustomers64 i) (Fin 0) \<and>
      js_gt (convertedCustomers (financials64 i)) (Fin 0) \<and>
      js_gt (costPerAcquisition (financials64 i)) (Fin 0)) \<and>
   (totalPaidAds (budgets64 i) = Fin 0 \<longrightarrow> roi (financials64 i) = Fin 0) \<and>
   (convertedCustomers64 i = Fin 0 \<longrightarrow> costPerAcquisition (financials64 i) = Fin 0) \<and>
   (costPerAcquisition (financials64 i) = Fin 0 \<longrightarrow> ltvCacRatio (financials64 i) = Fin 0)"
proof -
  have bounded: "isFinite (roi64 i) \<and> isFinite (costPerAcquisition64 i) \<and>
      isFinite (ltvCacRatio64 i) \<and> js_gt (totalPaidAds64 i) (Fin 0) \<and>
      js_gt (convertedCustomers64 i) (Fin 0) \<and>
      js_gt (Math_round (convertedCustomers64 i)) (Fin 0) \<and>
      js_gt (costPerAcquisition64 i) (Fin 0)"
    if b: "within_bounds i"
  proof -
    note r = ranges_within_bounds [OF b] and q = ratios_within_bounds [OF b]
    have "js_gt (totalPaidAds64 i) (Fin 0)"
      using r(2) by (rule in_range_positive) simp
    moreover have "js_gt (convertedCustomers64 i) (Fin 0)"
      using r(4) by (rule in_range_positive) simp
    moreover have "js_gt (Math_round (convertedCustomers64 i)) (Fin 0)"
      using r(4) by (rule Math_round_positive) simp
    moreover have "js_gt (costPerAcquisition64 i) (Fin 0)"
      using q(2) by (rule in_range_positive) simp
    ultimately show ?thesis
      using q by (simp add: in_range_isFinite)
  qed
  have "totalPaidAds64 i = Fin 0 \<longrightarrow> roi64 i = Fin 0"
    by (simp add: roi64_def)
  moreover have "convertedCustomers64 i = Fin 0 \<longrightarrow> costPerAcquisition64 i = Fin 0"
    by (simp add: costPerAcquisition64_def)
  moreover have "costPerAcquisition64 i = Fin 0 \<longrightarrow> ltvCacRatio64 i = Fin 0"
    by (simp add: ltvCacRatio64_def)
  ultimately show ?thesis
    using bounded by (simp add: useMarketingCalculations64_def)
qed

theorem guarded_metrics_zero_guard_witness:
  "within_bounds tieSplit \<and>
   isFinite (roi (financials64 tieSplit)) \<and>
   isFinite (costPerAcquisition (financials64 tieSplit)) \<and>
   isFinite (ltvCacRatio (financials64 tieSplit)) \<and>
   js_gt (convertedCustomers (financials64 tieSplit)) (Fin 0) \<and>
   totalPaidAds (budgets64 zeroLeads) = Fin 0 \<and>
   convertedCustomers64 zeroLeads = Fin 0 \<and>
   roi (financials64 zeroLeads) = Fin 0 \<and>
   costPerAcquisition (financials64 zeroLeads) = Fin 0 \<and>
   ltvCacRatio (financials64 zeroLeads) = Fin 0"
proof -
  note t = guarded_metrics_zero_guard [of tieSplit]
  note z = guarded_metrics_zero_guard [of zeroLeads]
  have spend: "totalPaidAds (budgets64 zeroLeads) = Fin 0"
    by (simp add: useMarketingCalculations64_def zeroLeads_values)
  from t within_bounds_tieSplit have
    "isFinite (roi (financials64 tieSplit))"
    "isFinite (costPerAcquisition (financials64 tieSplit))"
    "isFinite (ltvCacRatio (financials64 tieSplit))"
    "js_gt (convertedCustomers (financials64 tieSplit)) (Fin 0)"
    by blast+
  moreover from z spend zeroLeads_values(2) have
    "roi (financials64 zeroLeads) = Fin 0"
    "costPerAcquisition (financials64 zeroLeads) = Fin 0"
    "ltvCacRatio (financials64 zeroLeads) = Fin 0"
    by blast+
  ultimately show ?thesis
    using within_bounds_tieSplit spend zeroLeads_values(2) by blast
qed

text \<open>
  The guard tests the unrounded count. Outside the bounds of the component (here with
  a conversion rate of 1/512) the returned count can be 0 while the unrounded one is
  not, and then \<open>costPerAcquisition\<close> is not 0.
\<close>

lemma returned_count_zero_outside_bounds:
  "\<not> within_bounds (tieSplit\<lparr>serviceLeadConversionRate := Fin (1 / 512)\<rparr>) \<and>
   convertedCustomers64 (tieSplit\<lparr>serviceLeadConversionRate := Fin (1 / 512)\<rparr>) =
     Fin (39 / 128) \<and>
   convertedCustomers (financials64 (tieSplit\<lparr>serviceLeadConversionRate := Fin (1 / 512)\<rparr>)) =
     Fin 0 \<and>
   costPerAcquisition (financials64 (tieSplit\<lparr>serviceLeadConversionRate := Fin (1 / 512)\<rparr>)) =
     Fin (561371167494249 / 68719476736)"
proof -
  let ?q = "tieSplit\<lparr>serviceLeadConversionRate := Fin (1 / 512)\<rparr>"
  have nb: "\<not> within_bounds ?q"
    by (simp add: within_bounds_def tieSplit_def)
  have T: "totalServiceLeads64 ?q = Fin 156"
    by (simp add: tieSplit_def lead64_defs constants_defs ops64 binary64_eval)
  have cc: "convertedCustomers64 ?q = Fin (39 / 128)"
    by (simp add: convertedCustomers64_def T) (simp add: tieSplit_def ops64 binary64_eval)
  have g: "googleServiceLeads64 ?q = Fin (195 / 2)" "metaServiceLeads64 ?q = Fin (117 / 2)"
    by (simp_all add: googleServiceLeads64_def metaServiceLeads64_def T)
      (simp_all add: tieSplit_def ops64 binary64_eval)
  have F: "totalFranchiseLeads64 ?q = Fin 60" "totalCommercialLeads64 ?q = Fin 4"
    by (simp_all add: tieSplit_def lead64_defs constants_defs ops64 binary64_eval)
  have b: "googleServiceBudget64 ?q = Fin 975" "metaServiceBudget64 ?q = Fin 468"
    "googleFranchiseBudget64 ?q = Fin 630" "metaFranchiseBudget64 ?q = Fin 216"
    "commercialBudget64 ?q = Fin 200"
    unfolding googleServiceBudget64_def metaServiceBudget64_def googleFranchiseBudget64_def
      metaFranchiseBudget64_def commercialBudget64_def g F GOOGLE_FRANCHISE_RATIO64_def
      META_FRANCHISE_RATIO64_def literals
    by (simp_all add: tieSplit_def ops64 binary64_eval)
  have spend: "totalPaidAds64 ?q = Fin 2489"
    unfolding totalPaidAds64_def totalGoogleBudget64_def totalMetaBudget64_def b
    by (simp add: ops64 binary64_eval)
  have cpa: "costPerAcquisition64 ?q = Fin (561371167494249 / 68719476736)"
    unfolding costPerAcquisition64_def spend cc by (simp add: ops64 binary64_eval)
  have r: "convertedCustomers (financials64 ?q) = Fin 0"
    by (simp add: useMarketingCalculations64_def cc)
  have c: "costPerAcquisition (financials64 ?q) = Fin (561371167494249 / 68719476736)"
    by (simp add: useMarketingCalculations64_def cpa)
  from nb cc r c show ?thesis by blast
qed

text \<open>
  C3. The blended average CPL is the total paid spend divided by the sum of the three
  annualized lead segments, with no guard: whenever that sum is 0 the returned
  \<open>averageCPL\<close> is a non-finite value, and in particular not 0.
\<close>

theorem averageCPL_unguarded:
  "averageCPL (financials i) =
     js_div (totalPaidAds (budgets i))
       (js_add (js_add (totalServiceLeads_of i) (totalFranchiseLeads_of i))
          (totalCommercialLeads_of i)) \<and>
   (js_add (js_add (totalServiceLeads_of i) (totalFranchiseLeads_of i))
      (totalCommercialLeads_of i) = Fin 0 \<longrightarrow>
    \<not> isFinite (averageCPL (financials i)) \<and>
    averageCPL (financials i) \<noteq> Fin 0)"
proof -
  have "\<not> isFinite x \<Longrightarrow> x \<noteq> Fin 0" for x
    by auto
  then show ?thesis
    using js_div_by_zero_not_finite [of "totalPaidAds_of i"]
    by (auto simp add: useMarketingCalculations_def)
qed

theorem averageCPL_unguarded_witness:
  "js_add (js_add (totalServiceLeads_of scenarioB) (totalFranchiseLeads_of scenarioB))
     (totalCommercialLeads_of scenarioB) = Fin 0 \<and>
   averageCPL (financials scenarioB) = NaN \<and>
   \<not> isFinite (averageCPL (financials scenarioB))"
proof -
  have leads: "js_add (js_add (totalServiceLeads_of scenarioB) (totalFranchiseLeads_of scenarioB))
     (totalCommercialLeads_of scenarioB) = Fin 0"
    by (simp add: scenarioB_def lead_defs constants_defs)
  have spend: "totalPaidAds (budgets scenarioB) = Fin 0"
    by (simp add: useMarketingCalculations_def scenarioB_def lead_defs budget_defs
        constants_defs js_sub_def)
  show ?thesis
    using averageCPL_unguarded [of scenarioB] leads spend by simp
qed

section \<open>Scenario A\<close>

text \<open>
  C4. For the default Scenario A inputs the engine computes and returns total service
  leads 15340 (= 13 * 15 * 52 + 100 * 52 = 10140 + 5200), total franchise leads 60,
  total commercial leads 4 and customer lifetime value 2880.
\<close>

theorem scenarioA_values:
  "rmfServiceLeadsAnnual_of scenarioA = Fin 10140 \<and>
   aucklandServiceLeadsAnnual_of scenarioA = Fin 5200 \<and>
   totalServiceLeads_of scenarioA = Fin 15340 \<and>
   totalServiceLeads (leads scenarioA) = Fin 15340 \<and>
   totalFranchiseLeads (leads scenarioA) = Fin 60 \<and>
   totalCommercialLeads (leads scenarioA) = Fin 4 \<and>
   customerLTV (financials scenarioA) = Fin 2880"
  by (simp add: useMarketingCalculations_def scenarioA_def lead_defs financial_defs
      constants_defs)

section \<open>The service split\<close>





section \<open>Additivity of the service segments\<close>




section \<open>Monotonicity of the budgets\<close>





section \<open>What the customer inputs influence\<close>

text \<open>
  C8. Two input records that differ at most in \<open>avgMonthlyServiceFee\<close>,
  \<open>avgCustomerRetentionMonths\<close> and \<open>serviceLeadConversionRate\<close> get
  identical \<open>leadMetrics\<close>, \<open>channelLeads\<close> and \<open>budgetAllocation\<close>
  records: these three inputs influence the \<open>financialMetrics\<close> only.
\<close>

theorem customer_inputs_only_affect_financials:
  assumes "rmfRegionCount j = rmfRegionCount i"
    and "serviceLeadsPerWeekRMF j = serviceLeadsPerWeekRMF i"
    and "aucklandServiceLeadsPerWeek j = aucklandServiceLeadsPerWeek i"
    and "franchiseLeadsPerMonth j = franchiseLeadsPerMonth i"
    and "commercialLeadsPerQuarter j = commercialLeadsPerQuarter i"
    and "googleServiceCPL j = googleServiceCPL i"
    and "metaServiceCPL j = metaServiceCPL i"
    and "googleFranchiseCPL j = googleFranchiseCPL i"
    and "metaFranchiseCPL j = metaFranchiseCPL i"
    and "linkedInCommercialCPL j = linkedInCommercialCPL i"
    and "googleServiceSplit j = googleServiceSplit i"
  shows "leadMetrics (useMarketingCalculations j) = leadMetrics (useMarketingCalculations i) \<and>
    channelLeads (useMarketingCalculations j) = channelLeads (useMarketingCalculations i) \<and>
    budgetAllocation (useMarketingCalculations j) =
      budgetAllocation (useMarketingCalculations i)"
  using assms by (simp add: useMarketingCalculations_def lead_defs budget_defs)

theorem customer_inputs_only_affect_financials_witness:
  "leadMetrics (useMarketingCalculations
      (scenarioA\<lparr>avgMonthlyServiceFee := Fin 200, avgCustomerRetentionMonths := Fin 12,
         serviceLeadConversionRate := Fin (1 / 10)\<rparr>)) =
     leadMetrics (useMarketingCalculations scenarioA) \<and>
   channelLeads (useMarketingCalculations
      (scenarioA\<lparr>avgMonthlyServiceFee := Fin 200, avgCustomerRetentionMonths := Fin 12,
         serviceLeadConversionRate := Fin (1 / 10)\<rparr>)) =
     channelLeads (useMarketingCalculations scenarioA) \<and>
   budgetAllocation (useMarketingCalculations
      (scenarioA\<lparr>avgMonthlyServiceFee := Fin 200, avgCustomerRetentionMonths := Fin 12,
         serviceLeadConversionRate := Fin (1 / 10)\<rparr>)) =
     budgetAllocation (useMarketingCalculations scenarioA) \<and>
   customerLTV (financials
      (scenarioA\<lparr>avgMonthlyServiceFee := Fin 200, avgCustomerRetentionMonths := Fin 12,
         serviceLeadConversionRate := Fin (1 / 10)\<rparr>)) = Fin 2400 \<and>
   customerLTV (financials scenarioA) = Fin 2880"
proof -
  have ltv: "customerLTV (financials
      (scenarioA\<lparr>avgMonthlyServiceFee := Fin 200, avgCustomerRetentionMonths := Fin 12,
         serviceLeadConversionRate := Fin (1 / 10)\<rparr>)) = Fin 2400"
    "customerLTV (financials scenarioA) = Fin 2880"
    by (simp_all add: useMarketingCalculations_def customerLTV_of_def scenarioA_def)
  show ?thesis
    using customer_inputs_only_affect_financials [of
        "scenarioA\<lparr>avgMonthlyServiceFee := Fin 200, avgCustomerRetentionMonths := Fin 12,
           serviceLeadConversionRate := Fin (1 / 10)\<rparr>" scenarioA] ltv
    by simp
qed

section \<open>Values computed before rounding\<close>

text \<open>
  C9 (as amended). The returned \<open>totalRevenue\<close> is total service leads *
  conversion rate * customer lifetime value, computed in binary64 arithmetic from the
  unrounded converted-customer count, while the returned \<open>convertedCustomers\<close> is
  that count rounded, which is another number whenever the count is finite and not an
  integer. When the count is an integer, \<open>totalRevenue\<close> is the product of the
  returned \<open>convertedCustomers\<close> and \<open>customerLTV\<close>; when it is not, the two can
  differ, and do on a record within the bounds of the component (56160 against 57600).
\<close>

theorem revenue_from_unrounded_customers:
  "totalRevenue (financials64 i) =
     mul64 (mul64 (totalServiceLeads64 i) (serviceLeadConversionRate i))
       (customerLTV (financials64 i)) \<and>
   convertedCustomers (financials64 i) =
     Math_round (mul64 (totalServiceLeads64 i) (serviceLeadConversionRate i)) \<and>
   (isFinite (convertedCustomers64 i) \<and> \<not> isInteger (convertedCustomers64 i) \<longrightarrow>
      convertedCustomers (financials64 i) \<noteq> convertedCustomers64 i) \<and>
   (isInteger (convertedCustomers64 i) \<longrightarrow>
      totalRevenue (financials64 i) =
        mul64 (convertedCustomers (financials64 i)) (customerLTV (financials64 i))) \<and>
   (\<exists>j. within_bounds j \<and> \<not> isInteger (convertedCustomers64 j) \<and>
      totalRevenue (financials64 j) \<noteq>
        mul64 (convertedCustomers (financials64 j)) (customerLTV (financials64 j)))"
proof -
  have rev: "totalRevenue (financials64 i) =
     mul64 (mul64 (totalServiceLeads64 i) (serviceLeadConversionRate i))
       (customerLTV (financials64 i))"
    by (simp add: useMarketingCalculations64_def totalRevenue64_def convertedCustomers64_def)
  have cc: "convertedCustomers (financials64 i) =
     Math_round (mul64 (totalServiceLeads64 i) (serviceLeadConversionRate i))"
    by (simp add: useMarketingCalculations64_def convertedCustomers64_def)
  have rounded: "convertedCustomers (financials64 i) \<noteq> convertedCustomers64 i"
    if "isFinite (convertedCustomers64 i)" "\<not> isInteger (convertedCustomers64 i)"
    using that Math_round_whole [of "convertedCustomers64 i"]
    by (auto simp add: useMarketingCalculations64_def)
  have same: "totalRevenue (financials64 i) =
        mul64 (convertedCustomers (financials64 i)) (customerLTV (financials64 i))"
    if "isInteger (convertedCustomers64 i)"
    using Math_round_integer [OF that]
    by (simp add: useMarketingCalculations64_def totalRevenue64_def)
  have "within_bounds tieSplit \<and> \<not> isInteger (convertedCustomers64 tieSplit) \<and>
      totalRevenue (financials64 tieSplit) \<noteq>
        mul64 (convertedCustomers (financials64 tieSplit)) (customerLTV (financials64 tieSplit))"
    using within_bounds_tieSplit
    by (simp add: useMarketingCalculations64_def tieSplit64_values ops64 binary64_eval)
  then have differ: "\<exists>j. within_bounds j \<and> \<not> isInteger (convertedCustomers64 j) \<and>
      totalRevenue (financials64 j) \<noteq>
        mul64 (convertedCustomers (financials64 j)) (customerLTV (financials64 j))"
    by blast
  from rev cc rounded same differ show ?thesis by blast
qed

theorem revenue_from_unrounded_customers_witness:
  "within_bounds tieSplit \<and>
   isFinite (convertedCustomers64 tieSplit) \<and> \<not> isInteger (convertedCustomers64 tieSplit) \<and>
   convertedCustomers64 tieSplit = Fin (39 / 2) \<and>
   convertedCustomers (financials64 tieSplit) = Fin 20 \<and>
   convertedCustomers (financials64 tieSplit) \<noteq> convertedCustomers64 tieSplit \<and>
   totalRevenue (financials64 tieSplit) = Fin 56160 \<and>
   mul64 (convertedCustomers (financials64 tieSplit)) (customerLTV (financials64 tieSplit)) =
     Fin 57600 \<and>
   isInteger (convertedCustomers64 (tieSplit\<lparr>serviceLeadConversionRate := Fin (1 / 4)\<rparr>)) \<and>
   totalRevenue (financials64 (tieSplit\<lparr>serviceLeadConversionRate := Fin (1 / 4)\<rparr>)) =
     mul64
       (convertedCustomers (financials64 (tieSplit\<lparr>serviceLeadConversionRate := Fin (1 / 4)\<rparr>)))
       (customerLTV (financials64 (tieSplit\<lparr>serviceLeadConversionRate := Fin (1 / 4)\<rparr>)))"
proof -
  let ?q = "tieSplit\<lparr>serviceLeadConversionRate := Fin (1 / 4)\<rparr>"
  have fin: "isFinite (convertedCustomers64 tieSplit)"
    and frac: "\<not> isInteger (convertedCustomers64 tieSplit)"
    by (simp_all add: tieSplit64_values)
  have vals: "convertedCustomers (financials64 tieSplit) = Fin 20"
    "totalRevenue (financials64 tieSplit) = Fin 56160"
    "mul64 (convertedCustomers (financials64 tieSplit)) (customerLTV (financials64 tieSplit)) =
       Fin 57600"
    by (simp_all add: useMarketingCalculations64_def tieSplit64_values ops64 binary64_eval)
  have differs: "convertedCustomers (financials64 tieSplit) \<noteq> convertedCustomers64 tieSplit"
    using revenue_from_unrounded_customers [of tieSplit] fin frac by blast
  have "totalServiceLeads64 ?q = Fin 156"
    by (simp add: tieSplit_def lead64_defs constants_defs ops64 binary64_eval)
  then have "convertedCustomers64 ?q = Fin 39"
    by (simp add: convertedCustomers64_def) (simp add: tieSplit_def ops64 binary64_eval)
  then have whole: "isInteger (convertedCustomers64 ?q)"
    by simp
  have same: "totalRevenue (financials64 ?q) =
      mul64 (convertedCustomers (financials64 ?q)) (customerLTV (financials64 ?q))"
    using revenue_from_unrounded_customers [of ?q] whole by blast
  from within_bounds_tieSplit fin frac tieSplit64_values(4) vals differs whole same
  show ?thesis by blast
qed

text \<open>
  C9 (counterexample). A count that is not an integer does not make the two products
  differ: on a record within the bounds with 5200 service leads and a conversion rate
  of 0.07 the count is 364.00000000000006, the returned \<open>convertedCustomers\<close> is
  364, and \<open>totalRevenue\<close> and the product of the returned
  \<open>convertedCustomers\<close> and \<open>customerLTV\<close> are the same binary64 number,
  1100080.8.
\<close>

theorem products_can_coincide_after_rounding:
  "within_bounds nearInteger \<and>
   convertedCustomers64 nearInteger = Fin (6403555720167425 / 17592186044416) \<and>
   \<not> isInteger (convertedCustomers64 nearInteger) \<and>
   convertedCustomers (financials64 nearInteger) = Fin 364 \<and>
   totalRevenue (financials64 nearInteger) = Fin (4724811058957517 / 4294967296) \<and>
   mul64 (convertedCustomers (financials64 nearInteger))
     (customerLTV (financials64 nearInteger)) = Fin (4724811058957517 / 4294967296)"
proof -
  have "\<not> isInteger (convertedCustomers64 nearInteger)"
    by (simp add: nearInteger_cc)
  moreover have "convertedCustomers (financials64 nearInteger) = Fin 364"
    by (simp add: useMarketingCalculations64_def nearInteger_cc)
  moreover have "totalRevenue (financials64 nearInteger) =
      Fin (4724811058957517 / 4294967296)"
    by (simp add: useMarketingCalculations64_def nearInteger_rev)
  moreover have "mul64 (convertedCustomers (financials64 nearInteger))
     (customerLTV (financials64 nearInteger)) = Fin (4724811058957517 / 4294967296)"
    using nearInteger_prod by (simp add: useMarketingCalculations64_def)
  ultimately show ?thesis
    using within_bounds_nearInteger nearInteger_cc by blast
qed



end
